theory Spec2Isabelle
  imports Main "HOL-Library.Word" "HOL-Library.Signed_Division" "HOL-Library.Multiset"
begin

section \<open>The main-menu spot subsystem (NMMSubsystem.cpp)\<close>

subsection \<open>Data\<close>

text \<open>
  A \<open>UNMMSpotComponent*\<close> is \<open>None\<close> for \<open>nullptr\<close> and \<open>Some a\<close> for the component
  at address \<open>a\<close>. The components themselves live outside the subsystem; the only thing
  the subsystem reads from one is its cinematic row, so the object store is the function
  \<open>GetCinematicRow\<close> from addresses to rows, passed to every operation that dereferences
  a spot. \<open>ELevelType\<close> is declared \<open>enum class ELevelType : uint8\<close>, its enumerators are
  not part of the sources, so a level type is its underlying byte. \<open>RowIndex\<close> and
  \<open>ActiveMainMenuSpotIdx\<close> are \<open>int32\<close> values that are only compared, never computed
  with; they are integers here.
\<close>

type_synonym spot_ptr = "nat option"

type_synonym ELevelType = "8 word"

record FNMMCinematicRow =
  RowIndex :: int
  LevelType :: ELevelType

datatype ENMMCinematicState = IdlePart

text \<open>
  What an operation does to the world outside the subsystem is recorded, in order, in
  \<open>Effects\<close>: a failed \<open>ensureMsgf\<close> (a diagnostic, after which the call goes on), and
  the two calls \<open>MoveMainMenuSpot\<close> makes on spot components. The class declaration of
  the subsystem is not among the sources; its members are the three the operations use,
  with the types their uses fix: the registry is an array (\<open>AddUnique\<close>, \<open>RemoveSwap\<close>,
  \<open>Empty\<close>), the active index is compared with and assigned from row indices, the data
  asset is a soft pointer that \<open>Reset\<close> makes null.
\<close>

datatype effect =
    EnsureFailed string
  | StopMasterSequence nat
  | SetCinematicState nat ENMMCinematicState

record UNMMSubsystem =
  NewMainMenuDataAssetInternal :: "nat option"
  MainMenuSpotsInternal :: "spot_ptr list"
  ActiveMainMenuSpotIdx :: int
  Effects :: "effect list"

text \<open>
  The ways a call can end the process: a failed \<open>checkf\<close>, the range check of
  \<open>TArray::operator[]\<close>, a read through a null pointer, an integer division by zero.
\<close>

datatype fatal = CheckFailed | RangeCheckFailed | NullDereference | DivideByZero

subsection \<open>The engine's array operations, as the subsystem uses them\<close>

text \<open>\<open>TArray::AddUnique\<close>: append unless an equal element is already there.\<close>

definition AddUnique :: "'a list \<Rightarrow> 'a \<Rightarrow> 'a list" where
  "AddUnique xs x = (if x \<in> set xs then xs else xs @ [x])"

text \<open>
  \<open>TArray::RemoveAtSwap\<close> of one element: the last element takes the place of the
  removed one. \<open>TArray::RemoveSwap\<close> walks the array and applies it at every position
  that holds the item, looking at the same position again after a removal.
\<close>

definition RemoveAtSwap :: "nat \<Rightarrow> 'a list \<Rightarrow> 'a list" where
  "RemoveAtSwap Index xs =
     (if Suc Index = length xs then butlast xs else (butlast xs)[Index := last xs])"

function RemoveSwap_from :: "nat \<Rightarrow> 'a \<Rightarrow> 'a list \<Rightarrow> 'a list" where
  "RemoveSwap_from Index Item xs =
     (if Index < length xs
      then (if xs ! Index = Item
            then RemoveSwap_from Index Item (RemoveAtSwap Index xs)
            else RemoveSwap_from (Suc Index) Item xs)
      else xs)"
  by pat_completeness auto
termination
  by (relation "measure (\<lambda>(Index, Item, xs). length xs - Index)")
     (auto simp: RemoveAtSwap_def)

declare RemoveSwap_from.simps [simp del]

definition RemoveSwap :: "'a list \<Rightarrow> 'a \<Rightarrow> 'a list" where
  "RemoveSwap xs Item = RemoveSwap_from 0 Item xs"

text \<open>\<open>TArray::IndexOfByKey\<close>: the first position of the key, \<open>INDEX_NONE = -1\<close> without one.\<close>

fun IndexOfByKey :: "'a list \<Rightarrow> 'a \<Rightarrow> int" where
  "IndexOfByKey [] Key = - 1"
| "IndexOfByKey (x # xs) Key =
     (if x = Key then 0
      else (let i = IndexOfByKey xs Key in if i < 0 then - 1 else i + 1))"

definition Contains :: "'a list \<Rightarrow> 'a \<Rightarrow> bool" where
  "Contains xs x \<longleftrightarrow> IndexOfByKey xs x \<noteq> - 1"

definition IsValidIndex :: "'a list \<Rightarrow> int \<Rightarrow> bool" where
  "IsValidIndex xs Index \<longleftrightarrow> 0 \<le> Index \<and> Index < int (length xs)"

text \<open>
  \<open>TArray<T*>::Sort\<close> with the predicate \<open>A.RowIndex < B.RowIndex\<close>. On an array of
  pointers the engine hands the predicate references, so every element that is compared
  is dereferenced; an array of fewer than two elements is returned without a comparison.
  The engine's sort is not stable, and its code is not among the sources: what is known
  of its result is that it is a rearrangement of the array in which no element comes
  before one of smaller row index. The sort used here is one such rearrangement. Where
  several elements share a row index the engine may leave them in another order than this
  one does, so no statement below says in which order elements of equal row index come
  out: the statements use the ordering and the elements of the result only, or assume
  that row indices are not repeated, in which case there is one ordered rearrangement.
\<close>

definition Sort_RowIndex :: "(nat \<Rightarrow> FNMMCinematicRow) \<Rightarrow> spot_ptr list \<Rightarrow> fatal + spot_ptr list" where
  "Sort_RowIndex GetCinematicRow xs =
     (case those xs of
        None \<Rightarrow> if length xs < 2 then Inr xs else Inl NullDereference
      | Some as \<Rightarrow> Inr (map Some (sort_key (\<lambda>a. RowIndex (GetCinematicRow a)) as)))"

subsection \<open>The subsystem's operations\<close>

text \<open>
  \<open>ensureMsgf\<close> is the engine's assertion that does not stop the program: it yields its
  condition and, when the condition is false, reports the message; the caller goes on
  (as section 7 of the specification has it: reported, no-op, process continues). The
  report is the effect \<open>EnsureFailed\<close>, with the message of the call site written
  without its quotation marks; the branch on the condition is in the caller, as in the
  source. \<open>checkf\<close> is the assertion that does stop the program.
\<close>

definition ensure_report :: "string \<Rightarrow> UNMMSubsystem \<Rightarrow> UNMMSubsystem" where
  "ensure_report msg s = s\<lparr>Effects := Effects s @ [EnsureFailed msg]\<rparr>"

definition AddNewMainMenuSpot :: "spot_ptr \<Rightarrow> UNMMSubsystem \<Rightarrow> UNMMSubsystem" where
  "AddNewMainMenuSpot NewMainMenuSpotComponent s =
     (if NewMainMenuSpotComponent \<noteq> None
      then s\<lparr>MainMenuSpotsInternal := AddUnique (MainMenuSpotsInternal s) NewMainMenuSpotComponent\<rparr>
      else ensure_report ''AddNewMainMenuSpot: NewMainMenuSpotComponent is null'' s)"

definition RemoveMainMenuSpot :: "spot_ptr \<Rightarrow> UNMMSubsystem \<Rightarrow> UNMMSubsystem" where
  "RemoveMainMenuSpot MainMenuSpotComponent s =
     (if MainMenuSpotComponent \<noteq> None
      then s\<lparr>MainMenuSpotsInternal := RemoveSwap (MainMenuSpotsInternal s) MainMenuSpotComponent\<rparr>
      else ensure_report ''RemoveMainMenuSpot: MainMenuSpotComponent is null'' s)"

fun first_with_RowIndex :: "(nat \<Rightarrow> FNMMCinematicRow) \<Rightarrow> int \<Rightarrow> spot_ptr list \<Rightarrow> spot_ptr" where
  "first_with_RowIndex GetCinematicRow Idx [] = None"
| "first_with_RowIndex GetCinematicRow Idx (None # rest) =
     first_with_RowIndex GetCinematicRow Idx rest"
| "first_with_RowIndex GetCinematicRow Idx (Some a # rest) =
     (if RowIndex (GetCinematicRow a) = Idx then Some a
      else first_with_RowIndex GetCinematicRow Idx rest)"

definition GetActiveMainMenuSpotComponent ::
    "(nat \<Rightarrow> FNMMCinematicRow) \<Rightarrow> UNMMSubsystem \<Rightarrow> spot_ptr" where
  "GetActiveMainMenuSpotComponent GetCinematicRow s =
     first_with_RowIndex GetCinematicRow (ActiveMainMenuSpotIdx s) (MainMenuSpotsInternal s)"

text \<open>The loop of \<open>GetMainMenuSpotsByLevelType\<close> over the registry, then the sort.\<close>

fun add_spots_of_level ::
    "(nat \<Rightarrow> FNMMCinematicRow) \<Rightarrow> ELevelType \<Rightarrow> spot_ptr list \<Rightarrow> spot_ptr list \<Rightarrow> spot_ptr list" where
  "add_spots_of_level GetCinematicRow LevelType' [] OutSpots = OutSpots"
| "add_spots_of_level GetCinematicRow LevelType' (None # rest) OutSpots =
     add_spots_of_level GetCinematicRow LevelType' rest OutSpots"
| "add_spots_of_level GetCinematicRow LevelType' (Some a # rest) OutSpots =
     (if LevelType (GetCinematicRow a) = LevelType'
      then add_spots_of_level GetCinematicRow LevelType' rest (AddUnique OutSpots (Some a))
      else add_spots_of_level GetCinematicRow LevelType' rest OutSpots)"

definition GetMainMenuSpotsByLevelType ::
    "(nat \<Rightarrow> FNMMCinematicRow) \<Rightarrow> spot_ptr list \<Rightarrow> ELevelType \<Rightarrow> UNMMSubsystem
      \<Rightarrow> fatal + spot_ptr list" where
  "GetMainMenuSpotsByLevelType GetCinematicRow OutSpots LevelType' s =
     Sort_RowIndex GetCinematicRow
       (add_spots_of_level GetCinematicRow LevelType' (MainMenuSpotsInternal s) OutSpots)"

text \<open>
  The first loop of \<open>MoveMainMenuSpot\<close>: \<open>SpotIt->GetCinematicRow()\<close> reads through the
  pointer and the row index goes into \<open>SpotRowIndices\<close> unless it is there already.
\<close>

fun add_row_indices ::
    "(nat \<Rightarrow> FNMMCinematicRow) \<Rightarrow> spot_ptr list \<Rightarrow> int list \<Rightarrow> fatal + int list" where
  "add_row_indices GetCinematicRow [] SpotRowIndices = Inr SpotRowIndices"
| "add_row_indices GetCinematicRow (None # rest) SpotRowIndices = Inl NullDereference"
| "add_row_indices GetCinematicRow (Some a # rest) SpotRowIndices =
     add_row_indices GetCinematicRow rest
       (AddUnique SpotRowIndices (RowIndex (GetCinematicRow a)))"

text \<open>
  The rest of \<open>MoveMainMenuSpot\<close>, from the two arrays on. Positions and the element count
  are \<open>int32\<close> in the source; \<open>%\<close> is the truncating remainder of C++, \<open>smod\<close> here. The
  sum \<open>ActiveSpotPosition + Incrementer + Num\<close> is taken in the integers. For the
  increments 1 and -1, the two directions of the selector, it lies between 0 and twice
  the element count and is the \<open>int32\<close> sum of the source. For an increment so large that
  the \<open>int32\<close> sum would overflow, the source has no defined result and this function is
  not a model of it.
\<close>

definition move_on_arrays ::
    "spot_ptr list \<Rightarrow> int list \<Rightarrow> int \<Rightarrow> UNMMSubsystem \<Rightarrow> fatal + (spot_ptr \<times> UNMMSubsystem)" where
  "move_on_arrays CurrentLevelTypeSpots SpotRowIndices Incrementer s =
     (if \<not> Contains SpotRowIndices (ActiveMainMenuSpotIdx s)
      then Inr (None,
             ensure_report ''MoveMainMenuSpot: ActiveMainMenuSpotIdx is not found in the SpotRowIndices'' s)
      else
        let ActiveSpotPosition = IndexOfByKey SpotRowIndices (ActiveMainMenuSpotIdx s) in
        if \<not> IsValidIndex CurrentLevelTypeSpots ActiveSpotPosition then Inl CheckFailed
        else
          case CurrentLevelTypeSpots ! nat ActiveSpotPosition of
            None \<Rightarrow> Inl CheckFailed
          | Some CurrentSpot \<Rightarrow>
              let s1 = s\<lparr>Effects := Effects s @ [StopMasterSequence CurrentSpot]\<rparr>;
                  Num = int (length SpotRowIndices)
              in
              if Num = 0 then Inl DivideByZero
              else
                let NewSpotIndex = (ActiveSpotPosition + Incrementer + Num) smod Num in
                if \<not> IsValidIndex SpotRowIndices NewSpotIndex then Inl RangeCheckFailed
                else
                  let s2 = s1\<lparr>ActiveMainMenuSpotIdx := SpotRowIndices ! nat NewSpotIndex\<rparr> in
                  if \<not> IsValidIndex CurrentLevelTypeSpots NewSpotIndex then Inl CheckFailed
                  else
                    case CurrentLevelTypeSpots ! nat NewSpotIndex of
                      None \<Rightarrow> Inl CheckFailed
                    | Some NewSpot \<Rightarrow>
                        Inr (Some NewSpot,
                             s2\<lparr>Effects := Effects s2 @ [SetCinematicState NewSpot IdlePart]\<rparr>))"

text \<open>
  \<open>MoveMainMenuSpot\<close>. The level type is what \<open>UMyBlueprintFunctionLibrary::GetLevelType()\<close>
  answers at the moment of the call.
\<close>

definition MoveMainMenuSpot ::
    "(nat \<Rightarrow> FNMMCinematicRow) \<Rightarrow> ELevelType \<Rightarrow> int \<Rightarrow> UNMMSubsystem
      \<Rightarrow> fatal + (spot_ptr \<times> UNMMSubsystem)" where
  "MoveMainMenuSpot GetCinematicRow CurrentLevelType Incrementer s =
     (case GetMainMenuSpotsByLevelType GetCinematicRow [] CurrentLevelType s of
        Inl f \<Rightarrow> Inl f
      | Inr CurrentLevelTypeSpots \<Rightarrow>
          (case add_row_indices GetCinematicRow CurrentLevelTypeSpots [] of
             Inl f \<Rightarrow> Inl f
           | Inr SpotRowIndices \<Rightarrow>
               move_on_arrays CurrentLevelTypeSpots SpotRowIndices Incrementer s))"

text \<open>
  \<open>Deinitialize\<close>: the soft pointer to the data asset is reset and the registry emptied;
  the call of the base class, which is the engine's, touches no member of this class.
\<close>

definition Deinitialize :: "UNMMSubsystem \<Rightarrow> UNMMSubsystem" where
  "Deinitialize s = s\<lparr>NewMainMenuDataAssetInternal := None, MainMenuSpotsInternal := []\<rparr>"

text \<open>
  The two local arrays of \<open>MoveMainMenuSpot\<close> as functions of the state, to speak about
  them in the theorems.
\<close>

definition CurrentLevelTypeSpots ::
    "(nat \<Rightarrow> FNMMCinematicRow) \<Rightarrow> ELevelType \<Rightarrow> UNMMSubsystem \<Rightarrow> spot_ptr list" where
  "CurrentLevelTypeSpots GetCinematicRow CurrentLevelType s =
     (case GetMainMenuSpotsByLevelType GetCinematicRow [] CurrentLevelType s of
        Inl f \<Rightarrow> [] | Inr xs \<Rightarrow> xs)"

definition SpotRowIndices ::
    "(nat \<Rightarrow> FNMMCinematicRow) \<Rightarrow> ELevelType \<Rightarrow> UNMMSubsystem \<Rightarrow> int list" where
  "SpotRowIndices GetCinematicRow CurrentLevelType s =
     (case add_row_indices GetCinematicRow
             (CurrentLevelTypeSpots GetCinematicRow CurrentLevelType s) [] of
        Inl f \<Rightarrow> [] | Inr rs \<Rightarrow> rs)"

subsection \<open>Auxiliary functions\<close>

text \<open>
  The addresses held by an array of pointers, nulls dropped; the repeated \<open>AddUnique\<close>
  of a loop; and, from these, the addresses of the registered spots of one level type in
  the order \<open>GetMainMenuSpotsByLevelType\<close> gives them when it starts from an empty array.
\<close>

fun addrs_of :: "spot_ptr list \<Rightarrow> nat list" where
  "addrs_of [] = []"
| "addrs_of (None # rest) = addrs_of rest"
| "addrs_of (Some a # rest) = a # addrs_of rest"

fun AddUnique_all :: "'a list \<Rightarrow> 'a list \<Rightarrow> 'a list" where
  "AddUnique_all [] acc = acc"
| "AddUnique_all (x # xs) acc = AddUnique_all xs (AddUnique acc x)"

definition level_addrs :: "(nat \<Rightarrow> FNMMCinematicRow) \<Rightarrow> ELevelType \<Rightarrow> UNMMSubsystem \<Rightarrow> nat list" where
  "level_addrs cr lt s =
     sort_key (\<lambda>a. RowIndex (cr a)) (addrs_of (add_spots_of_level cr lt (MainMenuSpotsInternal s) []))"

subsection \<open>Example scenes\<close>

text \<open>
  Three spots at the addresses 0, 1 and 2. Under \<open>scene_rows\<close>, spots 0 and 1 belong to
  level type 1 with row indices 0 and 1, and spot 2 belongs to level type 2 with row
  index 0 (the scenario of section 8 of the specification). Under \<open>wide_rows\<close> all three
  belong to level type 1, with row indices 0, 2 and 5. \<open>scene Idx\<close> and
  \<open>wide_scene Idx\<close> have the three spots registered, in different orders, and \<open>Idx\<close> as
  the active row index.
\<close>

definition scene_rows :: "nat \<Rightarrow> FNMMCinematicRow" where
  "scene_rows a =
     (if a = 0 then \<lparr>RowIndex = 0, LevelType = 1\<rparr>
      else if a = 1 then \<lparr>RowIndex = 1, LevelType = 1\<rparr>
      else \<lparr>RowIndex = 0, LevelType = 2\<rparr>)"

definition scene :: "int \<Rightarrow> UNMMSubsystem" where
  "scene Idx = \<lparr>NewMainMenuDataAssetInternal = None,
                 MainMenuSpotsInternal = [Some 0, Some 1, Some 2],
                 ActiveMainMenuSpotIdx = Idx, Effects = []\<rparr>"

definition wide_rows :: "nat \<Rightarrow> FNMMCinematicRow" where
  "wide_rows a = \<lparr>RowIndex = (if a = 0 then 0 else if a = 1 then 2 else 5), LevelType = 1\<rparr>"

definition wide_scene :: "int \<Rightarrow> UNMMSubsystem" where
  "wide_scene Idx = \<lparr>NewMainMenuDataAssetInternal = None,
                      MainMenuSpotsInternal = [Some 2, Some 0, Some 1],
                      ActiveMainMenuSpotIdx = Idx, Effects = []\<rparr>"



section \<open>Facts about the array operations\<close>

lemma set_AddUnique: "set (AddUnique xs x) = insert x (set xs)"
  by (auto simp: AddUnique_def)

lemma distinct_AddUnique: "distinct xs \<Longrightarrow> distinct (AddUnique xs x)"
  by (simp add: AddUnique_def)

lemma length_AddUnique: "length (AddUnique xs x) \<le> Suc (length xs)"
  by (simp add: AddUnique_def)

lemma set_AddUnique_all: "set (AddUnique_all xs acc) = set acc \<union> set xs"
  by (induction xs arbitrary: acc) (auto simp: set_AddUnique)

lemma distinct_AddUnique_all: "distinct acc \<Longrightarrow> distinct (AddUnique_all xs acc)"
  by (induction xs arbitrary: acc) (auto simp: distinct_AddUnique)

lemma length_AddUnique_all: "length (AddUnique_all xs acc) \<le> length acc + length xs"
proof (induction xs arbitrary: acc)
  case Nil
  show ?case by simp
next
  case (Cons x xs)
  have "length (AddUnique_all xs (AddUnique acc x)) \<le> length (AddUnique acc x) + length xs"
    by (rule Cons)
  also have "\<dots> \<le> Suc (length acc) + length xs"
    using length_AddUnique [of acc x] by simp
  finally show ?case by simp
qed

lemma AddUnique_all_distinct: "distinct (acc @ xs) \<Longrightarrow> AddUnique_all xs acc = acc @ xs"
  by (induction xs arbitrary: acc) (auto simp: AddUnique_def)

lemma AddUnique_all_sorted:
  "sorted (acc @ xs) \<Longrightarrow> distinct acc \<Longrightarrow> sorted_wrt (<) (AddUnique_all xs acc)"
proof (induction xs arbitrary: acc)
  case Nil
  then show ?case by (simp add: strict_sorted_iff)
next
  case (Cons x xs)
  show ?case
  proof (cases "x \<in> set acc")
    case True
    have "sorted (acc @ xs)" using Cons.prems(1) by (auto simp: sorted_append)
    then show ?thesis using True Cons.IH [of acc] Cons.prems(2) by (simp add: AddUnique_def)
  next
    case False
    have "sorted ((acc @ [x]) @ xs)" using Cons.prems(1) by simp
    moreover have "distinct (acc @ [x])" using False Cons.prems(2) by simp
    ultimately show ?thesis using False Cons.IH [of "acc @ [x]"] by (simp add: AddUnique_def)
  qed
qed

text \<open>\<open>RemoveSwap\<close> removes every occurrence of the item and nothing else.\<close>


lemma mset_RemoveAtSwap:
  assumes "Index < length xs"
  shows "mset (RemoveAtSwap Index xs) = mset xs - {#xs ! Index#}"
proof -
  from assms have ne: "xs \<noteq> []" by auto
  have "mset xs = mset (butlast xs @ [last xs])" using ne by simp
  also have "\<dots> = mset (butlast xs) + {#last xs#}" by simp
  finally have m: "mset xs = mset (butlast xs) + {#last xs#}" .
  show ?thesis
  proof (cases "Suc Index = length xs")
    case True
    then have "Index = length xs - 1" by simp
    then have "xs ! Index = last xs" using ne by (simp add: last_conv_nth)
    then show ?thesis using True m by (simp add: RemoveAtSwap_def)
  next
    case False
    then have lt: "Index < length (butlast xs)" using assms by simp
    then have nth: "butlast xs ! Index = xs ! Index" by (simp add: nth_butlast)
    have "mset ((butlast xs)[Index := last xs]) =
            add_mset (last xs) (mset (butlast xs) - {#butlast xs ! Index#})"
      using lt by (rule mset_update)
    also have "\<dots> = add_mset (last xs) (mset (butlast xs)) - {#butlast xs ! Index#}"
      using nth_mem [OF lt] by (auto dest!: multi_member_split)
    also have "\<dots> = mset xs - {#xs ! Index#}"
      using m nth by simp
    finally show ?thesis using False by (simp add: RemoveAtSwap_def)
  qed
qed

lemma take_RemoveAtSwap:
  assumes "Index < length xs"
  shows "take Index (RemoveAtSwap Index xs) = take Index xs"
proof (cases "Suc Index = length xs")
  case True
  then have "Index = length xs - 1" by simp
  then show ?thesis using True by (simp add: RemoveAtSwap_def butlast_conv_take)
next
  case False
  then have "Index < length xs - 1" using assms by simp
  then show ?thesis using False by (simp add: RemoveAtSwap_def take_butlast)
qed

lemma mset_RemoveSwap_from:
  "Item \<notin> set (take Index xs) \<Longrightarrow>
   mset (RemoveSwap_from Index Item xs) = filter_mset (\<lambda>x. x \<noteq> Item) (mset xs)"
proof (induction Index Item xs rule: RemoveSwap_from.induct)
  case (1 Index Item xs)
  show ?case
  proof (cases "Index < length xs")
    case False
    then have "Item \<notin> set xs" using "1.prems" by simp
    then have "filter_mset (\<lambda>x. x \<noteq> Item) (mset xs) = mset xs"
      by (auto simp: filter_mset_eq_conv)
    moreover have "RemoveSwap_from Index Item xs = xs"
      using False by (subst RemoveSwap_from.simps) simp
    ultimately show ?thesis by simp
  next
    case True
    show ?thesis
    proof (cases "xs ! Index = Item")
      case eq: True
      have unf: "RemoveSwap_from Index Item xs = RemoveSwap_from Index Item (RemoveAtSwap Index xs)"
        using True eq by (subst RemoveSwap_from.simps) simp
      have "Item \<notin> set (take Index (RemoveAtSwap Index xs))"
        using "1.prems" True by (simp add: take_RemoveAtSwap)
      from "1.IH"(1) [OF True eq this]
      have "mset (RemoveSwap_from Index Item xs) =
              filter_mset (\<lambda>x. x \<noteq> Item) (mset xs - {#Item#})"
        using True eq unf by (simp add: mset_RemoveAtSwap)
      also have "\<dots> = filter_mset (\<lambda>x. x \<noteq> Item) (mset xs)"
        by (simp add: multiset_eq_iff)
      finally show ?thesis .
    next
      case ne: False
      have unf: "RemoveSwap_from Index Item xs = RemoveSwap_from (Suc Index) Item xs"
        using True ne by (subst RemoveSwap_from.simps) simp
      have "Item \<notin> set (take (Suc Index) xs)"
        using "1.prems" True ne by (simp add: take_Suc_conv_app_nth)
      from "1.IH"(2) [OF True ne this] show ?thesis using unf by simp
    qed
  qed
qed

lemma mset_RemoveSwap: "mset (RemoveSwap xs Item) = filter_mset (\<lambda>x. x \<noteq> Item) (mset xs)"
  by (simp add: RemoveSwap_def mset_RemoveSwap_from)

lemma set_RemoveSwap: "set (RemoveSwap xs Item) = set xs - {Item}"
proof -
  have "set (RemoveSwap xs Item) = set_mset (mset (RemoveSwap xs Item))" by simp
  also have "\<dots> = set xs - {Item}" unfolding mset_RemoveSwap by auto
  finally show ?thesis .
qed


lemma IndexOfByKey_notin: "k \<notin> set xs \<Longrightarrow> IndexOfByKey xs k = - 1"
  by (induction xs) (auto simp: Let_def)

lemma IndexOfByKey_in:
  "k \<in> set xs \<Longrightarrow>
   0 \<le> IndexOfByKey xs k \<and> IndexOfByKey xs k < int (length xs) \<and> xs ! nat (IndexOfByKey xs k) = k"
proof (induction xs)
  case Nil
  then show ?case by simp
next
  case (Cons x xs)
  show ?case
  proof (cases "x = k")
    case True
    then show ?thesis by simp
  next
    case False
    then have "k \<in> set xs" using Cons.prems by simp
    from Cons.IH [OF this] False show ?thesis
      by (simp add: Let_def nat_add_distrib)
  qed
qed

lemma Contains_iff: "Contains xs k \<longleftrightarrow> k \<in> set xs"
  using IndexOfByKey_in [of k xs] IndexOfByKey_notin [of k xs]
  by (auto simp: Contains_def)

lemma IndexOfByKey_nth:
  "distinct xs \<Longrightarrow> i < length xs \<Longrightarrow> IndexOfByKey xs (xs ! i) = int i"
proof (induction xs arbitrary: i)
  case Nil
  then show ?case by simp
next
  case (Cons x xs)
  show ?case
  proof (cases i)
    case 0
    then show ?thesis by simp
  next
    case (Suc j)
    then have j: "j < length xs" using Cons.prems by simp
    then have "xs ! j \<in> set xs" by simp
    then have "x \<noteq> xs ! j" using Cons.prems(1) by auto
    then show ?thesis using Suc Cons.IH [OF _ j] Cons.prems(1) by (simp add: Let_def)
  qed
qed

text \<open>Arrays without a null pointer, and the sort on them.\<close>

lemma map_Some_addrs_of: "None \<notin> set xs \<Longrightarrow> map Some (addrs_of xs) = xs"
  by (induction xs rule: addrs_of.induct) auto

lemma addrs_of_map_Some [simp]: "addrs_of (map Some as) = as"
  by (induction as) auto

lemma those_map_Some [simp]: "those (map Some as) = Some as"
  by (induction as) auto

lemma those_no_null: "None \<notin> set xs \<Longrightarrow> those xs = Some (addrs_of xs)"
  by (induction xs rule: addrs_of.induct) auto

lemma those_null: "None \<in> set (xs :: spot_ptr list) \<Longrightarrow> those xs = None"
  by (induction xs rule: addrs_of.induct) (auto split: option.splits)

lemma set_addrs_of: "set (addrs_of xs) = {a. Some a \<in> set xs}"
  by (induction xs rule: addrs_of.induct) auto

lemma distinct_addrs_of: "distinct xs \<Longrightarrow> distinct (addrs_of xs)"
  by (induction xs rule: addrs_of.induct) (auto simp: set_addrs_of)

lemma Sort_RowIndex_no_null:
  "None \<notin> set xs \<Longrightarrow>
   Sort_RowIndex cr xs = Inr (map Some (sort_key (\<lambda>a. RowIndex (cr a)) (addrs_of xs)))"
  by (simp add: Sort_RowIndex_def those_no_null)

lemma Sort_RowIndex_null:
  "None \<in> set xs \<Longrightarrow>
   Sort_RowIndex cr xs = (if length xs < 2 then Inr xs else Inl NullDereference)"
  by (simp add: Sort_RowIndex_def those_null)

text \<open>The truncating remainder agrees with \<open>mod\<close> wherever it yields a valid position.\<close>

lemma smod_in_range:
  fixes a n :: int
  assumes "0 < n" and "0 \<le> a smod n" and "a smod n < n"
  shows "a smod n = a mod n"
proof (cases "0 \<le> a")
  case True
  then show ?thesis using assms(1) by (cases "a = 0") (simp_all add: smod_int_alt_def sgn_if)
next
  case False
  then have neg: "a < 0" by simp
  then have eq: "a smod n = - (\<bar>a\<bar> mod n)" using assms(1) by (simp add: smod_int_alt_def sgn_if)
  have "0 \<le> \<bar>a\<bar> mod n" using assms(1) by simp
  with eq assms(2) have z: "\<bar>a\<bar> mod n = 0" by linarith
  then have "n dvd \<bar>a\<bar>" by (simp add: dvd_eq_mod_eq_0)
  then have "n dvd a" by simp
  then have "a mod n = 0" by (simp add: dvd_eq_mod_eq_0)
  with eq z show ?thesis by simp
qed

lemma smod_nonneg:
  fixes a n :: int
  assumes "0 \<le> a" and "0 < n"
  shows "a smod n = a mod n"
  using assms by (cases "a = 0") (simp_all add: smod_int_alt_def sgn_if)

section \<open>Facts about the registry query\<close>

lemma set_add_spots_of_level:
  "set (add_spots_of_level cr lt reg out) =
     set out \<union> {Some a | a. Some a \<in> set reg \<and> LevelType (cr a) = lt}"
  by (induction cr lt reg out rule: add_spots_of_level.induct)
     (auto simp: set_AddUnique)

lemma distinct_add_spots_of_level:
  "distinct out \<Longrightarrow> distinct (add_spots_of_level cr lt reg out)"
  by (induction cr lt reg out rule: add_spots_of_level.induct)
     (auto simp: distinct_AddUnique)

lemma add_spots_of_level_no_null:
  "None \<notin> set out \<Longrightarrow> None \<notin> set (add_spots_of_level cr lt reg out)"
  by (simp add: set_add_spots_of_level)

lemma add_spots_of_level_append:
  "add_spots_of_level cr lt reg out =
     out @ filter (\<lambda>p. p \<notin> set out) (add_spots_of_level cr lt reg [])"
proof (induction reg arbitrary: out)
  case Nil
  show ?case by simp
next
  case (Cons x reg)
  show ?case
  proof (cases x)
    case None
    then show ?thesis using Cons [of out] by simp
  next
    case (Some a)
    show ?thesis
    proof (cases "LevelType (cr a) = lt")
      case False
      then show ?thesis using Some Cons [of out] by simp
    next
      case True
      have one: "add_spots_of_level cr lt reg [Some a] =
          Some a # filter (\<lambda>p. p \<noteq> Some a) (add_spots_of_level cr lt reg [])"
        using Cons [of "[Some a]"] by simp
      show ?thesis
      proof (cases "Some a \<in> set out")
        case True
        have "filter (\<lambda>p. p \<notin> set out) (filter (\<lambda>p. p \<noteq> Some a) (add_spots_of_level cr lt reg []))
            = filter (\<lambda>p. p \<notin> set out) (add_spots_of_level cr lt reg [])"
          unfolding filter_filter using True by (intro filter_cong) auto
        then show ?thesis
          using Some \<open>LevelType (cr a) = lt\<close> True Cons [of out] one
          by (simp add: AddUnique_def)
      next
        case False
        have "filter (\<lambda>p. p \<notin> set out) (filter (\<lambda>p. p \<noteq> Some a) (add_spots_of_level cr lt reg []))
            = filter (\<lambda>p. p \<notin> set (out @ [Some a])) (add_spots_of_level cr lt reg [])"
          unfolding filter_filter by (intro filter_cong) auto
        then show ?thesis
          using Some \<open>LevelType (cr a) = lt\<close> False Cons [of "out @ [Some a]"] one
          by (simp add: AddUnique_def)
      qed
    qed
  qed
qed

lemma GetMainMenuSpotsByLevelType_empty:
  "GetMainMenuSpotsByLevelType cr [] lt s = Inr (map Some (level_addrs cr lt s))"
  unfolding GetMainMenuSpotsByLevelType_def level_addrs_def
  by (rule Sort_RowIndex_no_null) (simp add: add_spots_of_level_no_null)

lemma CurrentLevelTypeSpots_eq:
  "CurrentLevelTypeSpots cr lt s = map Some (level_addrs cr lt s)"
  by (simp add: CurrentLevelTypeSpots_def GetMainMenuSpotsByLevelType_empty)

lemma set_level_addrs:
  "set (level_addrs cr lt s) =
     {a. Some a \<in> set (MainMenuSpotsInternal s) \<and> LevelType (cr a) = lt}"
  by (simp add: level_addrs_def set_addrs_of set_add_spots_of_level)

lemma distinct_level_addrs: "distinct (level_addrs cr lt s)"
  by (simp add: level_addrs_def distinct_addrs_of distinct_add_spots_of_level)

lemma sorted_level_addrs: "sorted (map (\<lambda>a. RowIndex (cr a)) (level_addrs cr lt s))"
  by (simp add: level_addrs_def)

lemma level_addrs_cong:
  "MainMenuSpotsInternal s' = MainMenuSpotsInternal s \<Longrightarrow> level_addrs cr lt s' = level_addrs cr lt s"
  by (simp add: level_addrs_def)

lemma mset_CurrentLevelTypeSpots:
  "mset (CurrentLevelTypeSpots cr lt s) =
     mset (add_spots_of_level cr lt (MainMenuSpotsInternal s) [])"
proof -
  let ?M = "add_spots_of_level cr lt (MainMenuSpotsInternal s) []"
  have nn: "None \<notin> set ?M" by (simp add: add_spots_of_level_no_null)
  have "mset (CurrentLevelTypeSpots cr lt s) = image_mset Some (mset (addrs_of ?M))"
    by (simp add: CurrentLevelTypeSpots_eq level_addrs_def)
  also have "\<dots> = mset (map Some (addrs_of ?M))" by simp
  also have "\<dots> = mset ?M" by (simp only: map_Some_addrs_of [OF nn])
  finally show ?thesis .
qed

lemma set_CurrentLevelTypeSpots:
  "set (CurrentLevelTypeSpots cr lt s) =
     {Some a | a. Some a \<in> set (MainMenuSpotsInternal s) \<and> LevelType (cr a) = lt}"
  by (auto simp: CurrentLevelTypeSpots_eq set_level_addrs)

lemma unique_rows_distinct:
  assumes "\<forall>a b. Some a \<in> set (MainMenuSpotsInternal s) \<and> Some b \<in> set (MainMenuSpotsInternal s) \<and>
             LevelType (cr a) = lt \<and> LevelType (cr b) = lt \<and>
             RowIndex (cr a) = RowIndex (cr b) \<longrightarrow> a = b"
  shows "distinct (map (\<lambda>a. RowIndex (cr a)) (level_addrs cr lt s))"
proof -
  have "inj_on (\<lambda>a. RowIndex (cr a)) (set (level_addrs cr lt s))"
    unfolding set_level_addrs inj_on_def using assms by blast
  then show ?thesis by (simp add: distinct_map distinct_level_addrs)
qed

lemma first_with_RowIndex_Some:
  "first_with_RowIndex cr Idx xs = Some a \<Longrightarrow> Some a \<in> set xs \<and> RowIndex (cr a) = Idx"
  by (induction cr Idx xs rule: first_with_RowIndex.induct) (auto split: if_splits)

lemma GetActiveMainMenuSpotComponent_Some:
  "GetActiveMainMenuSpotComponent cr s = Some a \<Longrightarrow>
   Some a \<in> set (MainMenuSpotsInternal s) \<and> RowIndex (cr a) = ActiveMainMenuSpotIdx s"
  unfolding GetActiveMainMenuSpotComponent_def by (rule first_with_RowIndex_Some)

section \<open>Facts about the selector\<close>

lemma add_row_indices_map_Some:
  "add_row_indices cr (map Some as) acc =
     Inr (AddUnique_all (map (\<lambda>a. RowIndex (cr a)) as) acc)"
  by (induction as arbitrary: acc) auto

lemma SpotRowIndices_eq:
  "SpotRowIndices cr lt s =
     AddUnique_all (map (\<lambda>a. RowIndex (cr a)) (level_addrs cr lt s)) []"
  by (simp add: SpotRowIndices_def CurrentLevelTypeSpots_eq add_row_indices_map_Some)

lemma set_SpotRowIndices:
  "set (SpotRowIndices cr lt s) =
     {RowIndex (cr a) | a. Some a \<in> set (MainMenuSpotsInternal s) \<and> LevelType (cr a) = lt}"
  by (auto simp: SpotRowIndices_eq set_AddUnique_all set_level_addrs)

lemma distinct_SpotRowIndices: "distinct (SpotRowIndices cr lt s)"
  by (simp add: SpotRowIndices_eq distinct_AddUnique_all)

lemma strict_sorted_SpotRowIndices: "sorted_wrt (<) (SpotRowIndices cr lt s)"
  unfolding SpotRowIndices_eq
  by (rule AddUnique_all_sorted) (simp_all add: sorted_level_addrs)

lemma length_SpotRowIndices:
  "length (SpotRowIndices cr lt s) \<le> length (level_addrs cr lt s)"
  using length_AddUnique_all [of "map (\<lambda>a. RowIndex (cr a)) (level_addrs cr lt s)" "[]"]
  by (simp add: SpotRowIndices_eq)

lemma SpotRowIndices_unique_rows:
  "distinct (map (\<lambda>a. RowIndex (cr a)) (level_addrs cr lt s)) \<Longrightarrow>
   SpotRowIndices cr lt s = map (\<lambda>a. RowIndex (cr a)) (level_addrs cr lt s)"
  by (simp add: SpotRowIndices_eq AddUnique_all_distinct)

lemma SpotRowIndices_cong:
  "MainMenuSpotsInternal s' = MainMenuSpotsInternal s \<Longrightarrow>
   SpotRowIndices cr lt s' = SpotRowIndices cr lt s"
  using level_addrs_cong [of s' s cr lt] by (simp add: SpotRowIndices_eq)

lemma active_in_SpotRowIndices_iff:
  "ActiveMainMenuSpotIdx s \<in> set (SpotRowIndices cr lt s) \<longleftrightarrow>
   (\<exists>a. Some a \<in> set (MainMenuSpotsInternal s) \<and> LevelType (cr a) = lt
        \<and> RowIndex (cr a) = ActiveMainMenuSpotIdx s)"
  by (simp add: set_SpotRowIndices) metis

lemma MoveMainMenuSpot_eq:
  "MoveMainMenuSpot cr lt inc s =
     move_on_arrays (CurrentLevelTypeSpots cr lt s) (SpotRowIndices cr lt s) inc s"
  by (simp add: MoveMainMenuSpot_def SpotRowIndices_def CurrentLevelTypeSpots_eq
        GetMainMenuSpotsByLevelType_empty add_row_indices_map_Some)

lemma move_on_arrays_not_found:
  "ActiveMainMenuSpotIdx s \<notin> set R \<Longrightarrow>
   move_on_arrays C R inc s =
     Inr (None, ensure_report
       ''MoveMainMenuSpot: ActiveMainMenuSpotIdx is not found in the SpotRowIndices'' s)"
  by (simp add: move_on_arrays_def Contains_iff)

lemma move_on_arrays_found:
  assumes "ActiveMainMenuSpotIdx s \<in> set R" and "length R \<le> length as"
  shows "move_on_arrays (map Some as) R inc s =
     (let pos = IndexOfByKey R (ActiveMainMenuSpotIdx s);
          k = (pos + inc + int (length R)) smod int (length R)
      in if 0 \<le> k \<and> k < int (length R)
         then Inr (Some (as ! nat k),
                s\<lparr>ActiveMainMenuSpotIdx := R ! nat k,
                  Effects := Effects s @ [StopMasterSequence (as ! nat pos),
                                           SetCinematicState (as ! nat k) IdlePart]\<rparr>)
         else Inl RangeCheckFailed)"
proof -
  let ?pos = "IndexOfByKey R (ActiveMainMenuSpotIdx s)"
  from IndexOfByKey_in [OF assms(1)]
  have pos: "0 \<le> ?pos" "?pos < int (length R)" by simp_all
  then have posC: "nat ?pos < length as" using assms(2) by linarith
  have ne: "int (length R) \<noteq> 0" using pos by linarith
  show ?thesis
    using assms pos posC ne
    by (auto simp: move_on_arrays_def Contains_iff IsValidIndex_def Let_def)
qed

lemma MoveMainMenuSpot_not_found:
  assumes "ActiveMainMenuSpotIdx s \<notin> set (SpotRowIndices cr lt s)"
  shows "MoveMainMenuSpot cr lt inc s =
     Inr (None, s\<lparr>Effects := Effects s @
       [EnsureFailed ''MoveMainMenuSpot: ActiveMainMenuSpotIdx is not found in the SpotRowIndices'']\<rparr>)"
  using move_on_arrays_not_found [OF assms, of "CurrentLevelTypeSpots cr lt s" inc]
  by (simp add: MoveMainMenuSpot_eq ensure_report_def)

lemma MoveMainMenuSpot_found:
  assumes "ActiveMainMenuSpotIdx s \<in> set (SpotRowIndices cr lt s)"
  shows "MoveMainMenuSpot cr lt inc s =
     (let R = SpotRowIndices cr lt s;
          pos = IndexOfByKey R (ActiveMainMenuSpotIdx s);
          k = (pos + inc + int (length R)) smod int (length R)
      in if 0 \<le> k \<and> k < int (length R)
         then Inr (Some (level_addrs cr lt s ! nat k),
                s\<lparr>ActiveMainMenuSpotIdx := R ! nat k,
                  Effects := Effects s @ [StopMasterSequence (level_addrs cr lt s ! nat pos),
                                           SetCinematicState (level_addrs cr lt s ! nat k) IdlePart]\<rparr>)
         else Inl RangeCheckFailed)"
  using move_on_arrays_found [OF assms length_SpotRowIndices, of inc]
  by (simp add: MoveMainMenuSpot_eq CurrentLevelTypeSpots_eq Let_def)

lemma MoveMainMenuSpot_success:
  assumes "MoveMainMenuSpot cr lt inc s = Inr (Some p, s')"
  defines "R \<equiv> SpotRowIndices cr lt s"
  defines "pos \<equiv> IndexOfByKey R (ActiveMainMenuSpotIdx s)"
  defines "k \<equiv> (pos + inc + int (length R)) mod int (length R)"
  shows "ActiveMainMenuSpotIdx s \<in> set R"
    and "0 \<le> pos" and "pos < int (length R)" and "R ! nat pos = ActiveMainMenuSpotIdx s"
    and "0 \<le> k" and "k < int (length R)"
    and "p = level_addrs cr lt s ! nat k"
    and "s' = s\<lparr>ActiveMainMenuSpotIdx := R ! nat k,
                  Effects := Effects s @ [StopMasterSequence (level_addrs cr lt s ! nat pos),
                                           SetCinematicState p IdlePart]\<rparr>"
proof -
  show found: "ActiveMainMenuSpotIdx s \<in> set R"
  proof (rule ccontr)
    assume "ActiveMainMenuSpotIdx s \<notin> set R"
    then show False using assms(1) MoveMainMenuSpot_not_found [of s cr lt inc] by (simp add: R_def)
  qed
  from IndexOfByKey_in [OF found]
  show pos: "0 \<le> pos" "pos < int (length R)" "R ! nat pos = ActiveMainMenuSpotIdx s"
    by (simp_all add: pos_def)
  then have n: "0 < int (length R)" by linarith
  let ?k = "(pos + inc + int (length R)) smod int (length R)"
  have alt: "MoveMainMenuSpot cr lt inc s =
      (if 0 \<le> ?k \<and> ?k < int (length R)
       then Inr (Some (level_addrs cr lt s ! nat ?k),
                s\<lparr>ActiveMainMenuSpotIdx := R ! nat ?k,
                  Effects := Effects s @ [StopMasterSequence (level_addrs cr lt s ! nat pos),
                                           SetCinematicState (level_addrs cr lt s ! nat ?k) IdlePart]\<rparr>)
       else Inl RangeCheckFailed)"
    using MoveMainMenuSpot_found [of s cr lt inc] found
    by (simp add: R_def pos_def Let_def)
  have rng: "0 \<le> ?k \<and> ?k < int (length R)"
  proof (rule ccontr)
    assume "\<not> ?thesis"
    then have "MoveMainMenuSpot cr lt inc s = Inl RangeCheckFailed"
      using alt by simp
    then show False using assms(1) by simp
  qed
  then have keq: "?k = k" unfolding k_def using smod_in_range [OF n] by blast
  show "0 \<le> k" "k < int (length R)" using rng keq by simp_all
  have "Inr (Some p, s') = Inr (Some (level_addrs cr lt s ! nat ?k),
                s\<lparr>ActiveMainMenuSpotIdx := R ! nat ?k,
                  Effects := Effects s @ [StopMasterSequence (level_addrs cr lt s ! nat pos),
                                           SetCinematicState (level_addrs cr lt s ! nat ?k) IdlePart]\<rparr>)"
    using alt rng assms(1) by simp
  then have p: "p = level_addrs cr lt s ! nat ?k"
    and s': "s' = s\<lparr>ActiveMainMenuSpotIdx := R ! nat ?k,
                  Effects := Effects s @ [StopMasterSequence (level_addrs cr lt s ! nat pos),
                                           SetCinematicState (level_addrs cr lt s ! nat ?k) IdlePart]\<rparr>"
    by simp_all
  show "p = level_addrs cr lt s ! nat k" using p keq by simp
  show "s' = s\<lparr>ActiveMainMenuSpotIdx := R ! nat k,
                  Effects := Effects s @ [StopMasterSequence (level_addrs cr lt s ! nat pos),
                                           SetCinematicState p IdlePart]\<rparr>"
    using s' p keq by simp
qed

lemma MoveMainMenuSpot_step:
  assumes found: "ActiveMainMenuSpotIdx s \<in> set (SpotRowIndices cr lt s)"
    and dir: "inc = 1 \<or> inc = - 1"
  defines "R \<equiv> SpotRowIndices cr lt s"
  defines "pos \<equiv> IndexOfByKey R (ActiveMainMenuSpotIdx s)"
  defines "k \<equiv> (pos + inc) mod int (length R)"
  shows "MoveMainMenuSpot cr lt inc s =
           Inr (Some (level_addrs cr lt s ! nat k),
                s\<lparr>ActiveMainMenuSpotIdx := R ! nat k,
                  Effects := Effects s @ [StopMasterSequence (level_addrs cr lt s ! nat pos),
                                           SetCinematicState (level_addrs cr lt s ! nat k) IdlePart]\<rparr>)"
proof -
  from IndexOfByKey_in [OF found]
  have pos: "0 \<le> pos" "pos < int (length R)" by (simp_all add: pos_def R_def)
  then have n: "0 < int (length R)" by linarith
  have nonneg: "0 \<le> pos + inc + int (length R)" using pos dir by auto
  have "(pos + inc + int (length R)) smod int (length R) = (pos + inc + int (length R)) mod int (length R)"
    by (rule smod_nonneg [OF nonneg n])
  also have "\<dots> = k" by (simp add: k_def)
  finally have keq: "(pos + inc + int (length R)) smod int (length R) = k" .
  have "0 \<le> k" "k < int (length R)" using n by (simp_all add: k_def)
  then show ?thesis
    using MoveMainMenuSpot_found [OF found, of inc] keq
    by (simp add: Let_def R_def pos_def)
qed

section \<open>The operations on the example scenes\<close>



lemma scene_candidates_2: "CurrentLevelTypeSpots scene_rows 2 (scene i) = [Some 2]"
  by (simp add: CurrentLevelTypeSpots_eq level_addrs_def scene_def scene_rows_def AddUnique_def)

lemma wide_scene_SpotRowIndices: "SpotRowIndices wide_rows 1 (wide_scene i) = [0, 2, 5]"
  by (simp add: SpotRowIndices_eq level_addrs_def wide_scene_def wide_rows_def AddUnique_def)

lemma scene_unique_rows:
  "\<forall>a b. Some a \<in> set (MainMenuSpotsInternal (scene i)) \<and> Some b \<in> set (MainMenuSpotsInternal (scene i)) \<and>
         LevelType (scene_rows a) = lt \<and> LevelType (scene_rows b) = lt \<and>
         RowIndex (scene_rows a) = RowIndex (scene_rows b) \<longrightarrow> a = b"
  by (auto simp: scene_def scene_rows_def split: if_splits)

lemma scene_eval1: "MoveMainMenuSpot scene_rows 1 1 (scene 0) =
   Inr (Some 1, (scene 0)\<lparr>ActiveMainMenuSpotIdx := 1,
        Effects := [StopMasterSequence 0, SetCinematicState 1 IdlePart]\<rparr>)"
  by (simp add: MoveMainMenuSpot_def GetMainMenuSpotsByLevelType_def Sort_RowIndex_def
      move_on_arrays_def Contains_def IsValidIndex_def
      scene_def scene_rows_def AddUnique_def Let_def smod_int_alt_def)

lemma scene_remove_eval:
  "MainMenuSpotsInternal (RemoveMainMenuSpot (Some 0) (scene 0)) = [Some 2, Some 1]"
  by (simp add: RemoveMainMenuSpot_def RemoveSwap_def scene_def RemoveSwap_from.simps RemoveAtSwap_def)


text \<open>
  An increment other than 1 and -1 can leave the array: with two candidates and the first
  one active, the remainder of \<open>0 - 5 + 2\<close> by 2 is -1 in C++, and the read of
  \<open>SpotRowIndices\<close> at -1 fails its range check.
\<close>

lemma scene_large_decrement_fatal:
  "MoveMainMenuSpot scene_rows 1 (- 5) (scene 0) = Inl RangeCheckFailed"
  by (simp add: MoveMainMenuSpot_def GetMainMenuSpotsByLevelType_def Sort_RowIndex_def
      move_on_arrays_def Contains_def IsValidIndex_def
      scene_def scene_rows_def AddUnique_def Let_def smod_int_alt_def)

section \<open>The properties of the specification\<close>

text \<open>
  In what follows \<open>cr\<close> is the object store (\<open>GetCinematicRow\<close>), \<open>lt\<close> the level type
  the level-context provider answers, \<open>s\<close> the state of the subsystem, and a spot
  \<open>a\<close> "is a candidate" when \<open>Some a\<close> is in the registry and its level type is \<open>lt\<close>.
\<close>

text \<open>
  C1 (round trip). Whatever the registry holds, if some candidate has the active row
  index as its row index (so the candidate set is not empty and its row indices contain
  the active one), then \<open>MoveMainMenuSpot\<close> with increment 1 returns a spot,
  \<open>MoveMainMenuSpot\<close> with increment -1 on the resulting state returns a spot too, and
  afterwards \<open>ActiveMainMenuSpotIdx\<close> is what it was at the start.
\<close>

theorem MoveMainMenuSpot_round_trip:
  assumes "Some a \<in> set (MainMenuSpotsInternal s)"
    and "LevelType (cr a) = lt"
    and "RowIndex (cr a) = ActiveMainMenuSpotIdx s"
  shows "\<exists>p1 s1 p2 s2.
           MoveMainMenuSpot cr lt 1 s = Inr (Some p1, s1) \<and>
           MoveMainMenuSpot cr lt (- 1) s1 = Inr (Some p2, s2) \<and>
           ActiveMainMenuSpotIdx s2 = ActiveMainMenuSpotIdx s \<and>
           MainMenuSpotsInternal s2 = MainMenuSpotsInternal s"
proof -
  define R where "R = SpotRowIndices cr lt s"
  define pos where "pos = IndexOfByKey R (ActiveMainMenuSpotIdx s)"
  define k where "k = (pos + 1) mod int (length R)"
  have found: "ActiveMainMenuSpotIdx s \<in> set (SpotRowIndices cr lt s)"
    using assms active_in_SpotRowIndices_iff [of s cr lt] by blast
  from IndexOfByKey_in [OF found]
  have pos: "0 \<le> pos" "pos < int (length R)" "R ! nat pos = ActiveMainMenuSpotIdx s"
    by (simp_all add: pos_def R_def)
  then have n: "0 < int (length R)" by linarith
  have k: "0 \<le> k" "k < int (length R)" using n by (simp_all add: k_def)
  define s1 where "s1 = s\<lparr>ActiveMainMenuSpotIdx := R ! nat k,
      Effects := Effects s @ [StopMasterSequence (level_addrs cr lt s ! nat pos),
                               SetCinematicState (level_addrs cr lt s ! nat k) IdlePart]\<rparr>"
  have step1: "MoveMainMenuSpot cr lt 1 s = Inr (Some (level_addrs cr lt s ! nat k), s1)"
    using MoveMainMenuSpot_step [OF found, of 1]
    by (simp add: s1_def k_def pos_def R_def)
  have reg1: "MainMenuSpotsInternal s1 = MainMenuSpotsInternal s" by (simp add: s1_def)
  have R1: "SpotRowIndices cr lt s1 = R"
    using SpotRowIndices_cong [OF reg1] by (simp add: R_def)
  have act1: "ActiveMainMenuSpotIdx s1 = R ! nat k" by (simp add: s1_def)
  have knat: "nat k < length R" using k by linarith
  have found1: "ActiveMainMenuSpotIdx s1 \<in> set (SpotRowIndices cr lt s1)"
    using knat by (simp add: R1 act1)
  have pos1: "IndexOfByKey R (ActiveMainMenuSpotIdx s1) = k"
    using IndexOfByKey_nth [OF _ knat] distinct_SpotRowIndices [of cr lt s] k
    by (simp add: act1 R_def)
  have undo: "(k - 1) mod int (length R) = pos"
  proof -
    have "(k - 1) mod int (length R) = ((pos + 1) mod int (length R) - 1) mod int (length R)"
      by (simp add: k_def)
    also have "\<dots> = (pos + 1 - 1) mod int (length R)"
      by (rule mod_diff_left_eq)
    also have "\<dots> = pos" using pos by simp
    finally show ?thesis .
  qed
  define s2 where "s2 = s1\<lparr>ActiveMainMenuSpotIdx := R ! nat pos,
        Effects := Effects s1 @ [StopMasterSequence (level_addrs cr lt s1 ! nat k),
                                  SetCinematicState (level_addrs cr lt s1 ! nat pos) IdlePart]\<rparr>"
  have step2: "MoveMainMenuSpot cr lt (- 1) s1 = Inr (Some (level_addrs cr lt s1 ! nat pos), s2)"
    using MoveMainMenuSpot_step [OF found1, of "- 1"]
    by (simp add: R1 pos1 undo s2_def)
  have "ActiveMainMenuSpotIdx s2 = ActiveMainMenuSpotIdx s" using pos(3) by (simp add: s2_def)
  moreover have "MainMenuSpotsInternal s2 = MainMenuSpotsInternal s" using reg1 by (simp add: s2_def)
  ultimately show ?thesis using step1 step2 by blast
qed

text \<open>
  C1 on the example scene: spot 0 is a candidate of level type 1 and carries the active
  row index 0.
\<close>

theorem MoveMainMenuSpot_round_trip_witness:
  "Some 0 \<in> set (MainMenuSpotsInternal (scene 0)) \<and> LevelType (scene_rows 0) = 1 \<and>
   RowIndex (scene_rows 0) = ActiveMainMenuSpotIdx (scene 0) \<and>
   (\<exists>p1 s1 p2 s2.
           MoveMainMenuSpot scene_rows 1 1 (scene 0) = Inr (Some p1, s1) \<and>
           MoveMainMenuSpot scene_rows 1 (- 1) s1 = Inr (Some p2, s2) \<and>
           ActiveMainMenuSpotIdx s2 = ActiveMainMenuSpotIdx (scene 0) \<and>
           MainMenuSpotsInternal s2 = MainMenuSpotsInternal (scene 0))"
proof -
  have h1: "Some 0 \<in> set (MainMenuSpotsInternal (scene 0))" by (simp add: scene_def)
  have h2: "LevelType (scene_rows 0) = 1" by (simp add: scene_rows_def)
  have h3: "RowIndex (scene_rows 0) = ActiveMainMenuSpotIdx (scene 0)"
    by (simp add: scene_def scene_rows_def)
  from MoveMainMenuSpot_round_trip [where a = 0 and s = "scene 0" and cr = scene_rows and lt = 1,
         OF h1 h2 h3] h1 h2 h3
  show ?thesis by blast
qed

text \<open>
  C2 (modular stepping). The row indices the selector steps over are strictly ascending
  and are exactly the row indices of the candidates. Whenever \<open>MoveMainMenuSpot\<close> returns
  a spot, for any increment, the active row index was at a position \<open>pos\<close> of these
  \<open>count\<close> row indices, the new active row index is the one at position
  \<open>(pos + inc + count) mod count\<close>, and the returned spot is the candidate at that
  position. With increment 1 or -1 and the active row index among the row indices a spot
  is returned. With row indices 0, 2, 5 the increment 1 leads from 5 to 0 and the
  increment -1 from 0 to 5. With one candidate that carries the active row index, every
  increment returns that candidate and leaves the active row index and the registry as
  they were.
\<close>

theorem MoveMainMenuSpot_modular_step:
  "sorted_wrt (<) (SpotRowIndices cr lt s) \<and>
   set (SpotRowIndices cr lt s) =
     {RowIndex (cr a) | a. Some a \<in> set (MainMenuSpotsInternal s) \<and> LevelType (cr a) = lt} \<and>
   (MoveMainMenuSpot cr lt inc s = Inr (Some p, s') \<longrightarrow>
      (let rowIndices = SpotRowIndices cr lt s;
           pos = IndexOfByKey rowIndices (ActiveMainMenuSpotIdx s);
           count = int (length rowIndices);
           newPos = (pos + inc + count) mod count
       in ActiveMainMenuSpotIdx s \<in> set rowIndices \<and>
          rowIndices ! nat pos = ActiveMainMenuSpotIdx s \<and>
          0 \<le> newPos \<and> newPos < count \<and>
          ActiveMainMenuSpotIdx s' = rowIndices ! nat newPos \<and>
          Some p = CurrentLevelTypeSpots cr lt s ! nat newPos)) \<and>
   (ActiveMainMenuSpotIdx s \<in> set (SpotRowIndices cr lt s) \<and> (inc = 1 \<or> inc = - 1) \<longrightarrow>
      (\<exists>q t. MoveMainMenuSpot cr lt inc s = Inr (Some q, t))) \<and>
   (SpotRowIndices cr lt s = [0, 2, 5] \<and> ActiveMainMenuSpotIdx s = 5 \<longrightarrow>
      (\<exists>q t. MoveMainMenuSpot cr lt 1 s = Inr (Some q, t) \<and> ActiveMainMenuSpotIdx t = 0)) \<and>
   (SpotRowIndices cr lt s = [0, 2, 5] \<and> ActiveMainMenuSpotIdx s = 0 \<longrightarrow>
      (\<exists>q t. MoveMainMenuSpot cr lt (- 1) s = Inr (Some q, t) \<and> ActiveMainMenuSpotIdx t = 5)) \<and>
   (CurrentLevelTypeSpots cr lt s = [Some a] \<and> ActiveMainMenuSpotIdx s = RowIndex (cr a) \<longrightarrow>
      (\<exists>t. MoveMainMenuSpot cr lt inc s = Inr (Some a, t) \<and>
           ActiveMainMenuSpotIdx t = ActiveMainMenuSpotIdx s \<and>
           MainMenuSpotsInternal t = MainMenuSpotsInternal s))"
proof (intro conjI impI)
  show "sorted_wrt (<) (SpotRowIndices cr lt s)" by (rule strict_sorted_SpotRowIndices)
  show "set (SpotRowIndices cr lt s) =
     {RowIndex (cr a) | a. Some a \<in> set (MainMenuSpotsInternal s) \<and> LevelType (cr a) = lt}"
    by (rule set_SpotRowIndices)
next
  assume ok: "MoveMainMenuSpot cr lt inc s = Inr (Some p, s')"
  note S = MoveMainMenuSpot_success [OF ok]
  have "nat ((IndexOfByKey (SpotRowIndices cr lt s) (ActiveMainMenuSpotIdx s) + inc +
              int (length (SpotRowIndices cr lt s))) mod int (length (SpotRowIndices cr lt s)))
          < length (level_addrs cr lt s)"
    using S(5,6) length_SpotRowIndices [of cr lt s] by linarith
  then have "Some p = CurrentLevelTypeSpots cr lt s !
      nat ((IndexOfByKey (SpotRowIndices cr lt s) (ActiveMainMenuSpotIdx s) + inc +
              int (length (SpotRowIndices cr lt s))) mod int (length (SpotRowIndices cr lt s)))"
    using S(7) by (simp add: CurrentLevelTypeSpots_eq)
  moreover have "ActiveMainMenuSpotIdx s' = SpotRowIndices cr lt s !
      nat ((IndexOfByKey (SpotRowIndices cr lt s) (ActiveMainMenuSpotIdx s) + inc +
              int (length (SpotRowIndices cr lt s))) mod int (length (SpotRowIndices cr lt s)))"
    by (subst S(8)) simp
  ultimately show "let rowIndices = SpotRowIndices cr lt s;
           pos = IndexOfByKey rowIndices (ActiveMainMenuSpotIdx s);
           count = int (length rowIndices);
           newPos = (pos + inc + count) mod count
       in ActiveMainMenuSpotIdx s \<in> set rowIndices \<and>
          rowIndices ! nat pos = ActiveMainMenuSpotIdx s \<and>
          0 \<le> newPos \<and> newPos < count \<and>
          ActiveMainMenuSpotIdx s' = rowIndices ! nat newPos \<and>
          Some p = CurrentLevelTypeSpots cr lt s ! nat newPos"
    unfolding Let_def using S(1,4,5,6) by blast
next
  assume "ActiveMainMenuSpotIdx s \<in> set (SpotRowIndices cr lt s) \<and> (inc = 1 \<or> inc = - 1)"
  then have f: "ActiveMainMenuSpotIdx s \<in> set (SpotRowIndices cr lt s)"
    and d: "inc = 1 \<or> inc = - 1" by simp_all
  from MoveMainMenuSpot_step [OF f d]
  show "\<exists>q t. MoveMainMenuSpot cr lt inc s = Inr (Some q, t)" by blast
next
  assume "SpotRowIndices cr lt s = [0, 2, 5] \<and> ActiveMainMenuSpotIdx s = 5"
  then have R: "SpotRowIndices cr lt s = [0, 2, 5]" and A: "ActiveMainMenuSpotIdx s = 5"
    by simp_all
  have f: "ActiveMainMenuSpotIdx s \<in> set (SpotRowIndices cr lt s)" by (simp add: R A)
  from MoveMainMenuSpot_step [OF f, of 1]
  show "\<exists>q t. MoveMainMenuSpot cr lt 1 s = Inr (Some q, t) \<and> ActiveMainMenuSpotIdx t = 0"
    by (simp add: R A)
next
  assume "SpotRowIndices cr lt s = [0, 2, 5] \<and> ActiveMainMenuSpotIdx s = 0"
  then have R: "SpotRowIndices cr lt s = [0, 2, 5]" and A: "ActiveMainMenuSpotIdx s = 0"
    by simp_all
  have f: "ActiveMainMenuSpotIdx s \<in> set (SpotRowIndices cr lt s)" by (simp add: R A)
  from MoveMainMenuSpot_step [OF f, of "- 1"]
  show "\<exists>q t. MoveMainMenuSpot cr lt (- 1) s = Inr (Some q, t) \<and> ActiveMainMenuSpotIdx t = 5"
    by (simp add: R A)
next
  assume "CurrentLevelTypeSpots cr lt s = [Some a] \<and> ActiveMainMenuSpotIdx s = RowIndex (cr a)"
  then have "map Some (level_addrs cr lt s) = map Some [a]"
    and A: "ActiveMainMenuSpotIdx s = RowIndex (cr a)"
    by (simp_all add: CurrentLevelTypeSpots_eq)
  then have C: "level_addrs cr lt s = [a]"
    by (simp only: inj_map_eq_map [OF inj_Some])
  have R: "SpotRowIndices cr lt s = [RowIndex (cr a)]"
    by (simp add: SpotRowIndices_eq C AddUnique_def)
  have f: "ActiveMainMenuSpotIdx s \<in> set (SpotRowIndices cr lt s)" by (simp add: R A)
  from MoveMainMenuSpot_found [OF f, of inc]
  show "\<exists>t. MoveMainMenuSpot cr lt inc s = Inr (Some a, t) \<and>
           ActiveMainMenuSpotIdx t = ActiveMainMenuSpotIdx s \<and>
           MainMenuSpotsInternal t = MainMenuSpotsInternal s"
    by (simp add: R A C smod_int_alt_def)
qed

text \<open>
  C2 at concrete inputs: a step on the example scene, the two wrap-arounds over the row
  indices 0, 2, 5, and the single candidate of level type 2.
\<close>

theorem MoveMainMenuSpot_modular_step_witness:
  "MoveMainMenuSpot scene_rows 1 1 (scene 0) =
     Inr (Some 1, (scene 0)\<lparr>ActiveMainMenuSpotIdx := 1,
        Effects := [StopMasterSequence 0, SetCinematicState 1 IdlePart]\<rparr>) \<and>
   ActiveMainMenuSpotIdx ((scene 0)\<lparr>ActiveMainMenuSpotIdx := 1,
        Effects := [StopMasterSequence 0, SetCinematicState 1 IdlePart]\<rparr>) =
     SpotRowIndices scene_rows 1 (scene 0) !
       nat ((IndexOfByKey (SpotRowIndices scene_rows 1 (scene 0)) (ActiveMainMenuSpotIdx (scene 0))
             + 1 + int (length (SpotRowIndices scene_rows 1 (scene 0))))
            mod int (length (SpotRowIndices scene_rows 1 (scene 0)))) \<and>
   ActiveMainMenuSpotIdx (wide_scene 5) \<in> set (SpotRowIndices wide_rows 1 (wide_scene 5)) \<and>
   SpotRowIndices wide_rows 1 (wide_scene 5) = [0, 2, 5] \<and> ActiveMainMenuSpotIdx (wide_scene 5) = 5 \<and>
   (\<exists>q t. MoveMainMenuSpot wide_rows 1 1 (wide_scene 5) = Inr (Some q, t) \<and>
          ActiveMainMenuSpotIdx t = 0) \<and>
   SpotRowIndices wide_rows 1 (wide_scene 0) = [0, 2, 5] \<and> ActiveMainMenuSpotIdx (wide_scene 0) = 0 \<and>
   (\<exists>q t. MoveMainMenuSpot wide_rows 1 (- 1) (wide_scene 0) = Inr (Some q, t) \<and>
          ActiveMainMenuSpotIdx t = 5) \<and>
   CurrentLevelTypeSpots scene_rows 2 (scene 0) = [Some 2] \<and>
   ActiveMainMenuSpotIdx (scene 0) = RowIndex (scene_rows 2) \<and>
   (\<exists>t. MoveMainMenuSpot scene_rows 2 (- 1) (scene 0) = Inr (Some 2, t) \<and>
        ActiveMainMenuSpotIdx t = ActiveMainMenuSpotIdx (scene 0) \<and>
        MainMenuSpotsInternal t = MainMenuSpotsInternal (scene 0))"
proof -
  let ?t = "(scene 0)\<lparr>ActiveMainMenuSpotIdx := 1,
        Effects := [StopMasterSequence 0, SetCinematicState 1 IdlePart]\<rparr>"
  have e: "MoveMainMenuSpot scene_rows 1 1 (scene 0) = Inr (Some 1, ?t)"
    by (rule scene_eval1)
  have w5: "SpotRowIndices wide_rows 1 (wide_scene 5) = [0, 2, 5]"
    and w0: "SpotRowIndices wide_rows 1 (wide_scene 0) = [0, 2, 5]"
    by (rule wide_scene_SpotRowIndices)+
  have a5: "ActiveMainMenuSpotIdx (wide_scene 5) = 5" and a0: "ActiveMainMenuSpotIdx (wide_scene 0) = 0"
    by (simp_all add: wide_scene_def)
  have m5: "ActiveMainMenuSpotIdx (wide_scene 5) \<in> set (SpotRowIndices wide_rows 1 (wide_scene 5))"
    by (simp add: w5 a5)
  have c: "CurrentLevelTypeSpots scene_rows 2 (scene 0) = [Some 2]" by (rule scene_candidates_2)
  have r: "ActiveMainMenuSpotIdx (scene 0) = RowIndex (scene_rows 2)"
    by (simp add: scene_def scene_rows_def)
  note T1 = MoveMainMenuSpot_modular_step [of scene_rows 1 "scene 0" 1 1 ?t 0]
  note T2 = MoveMainMenuSpot_modular_step [of wide_rows 1 "wide_scene 5" 1 0 "wide_scene 5" 0]
  note T3 = MoveMainMenuSpot_modular_step [of wide_rows 1 "wide_scene 0" "- 1" 0 "wide_scene 0" 0]
  note T4 = MoveMainMenuSpot_modular_step [of scene_rows 2 "scene 0" "- 1" 0 "scene 0" 2]
  have g1: "ActiveMainMenuSpotIdx ?t =
     SpotRowIndices scene_rows 1 (scene 0) !
       nat ((IndexOfByKey (SpotRowIndices scene_rows 1 (scene 0)) (ActiveMainMenuSpotIdx (scene 0))
             + 1 + int (length (SpotRowIndices scene_rows 1 (scene 0))))
            mod int (length (SpotRowIndices scene_rows 1 (scene 0))))"
    using T1 e unfolding Let_def by blast
  have g2: "\<exists>q t. MoveMainMenuSpot wide_rows 1 1 (wide_scene 5) = Inr (Some q, t) \<and>
          ActiveMainMenuSpotIdx t = 0"
    using T2 w5 a5 by blast
  have g3: "\<exists>q t. MoveMainMenuSpot wide_rows 1 (- 1) (wide_scene 0) = Inr (Some q, t) \<and>
          ActiveMainMenuSpotIdx t = 5"
    using T3 w0 a0 by blast
  have g4: "\<exists>t. MoveMainMenuSpot scene_rows 2 (- 1) (scene 0) = Inr (Some 2, t) \<and>
        ActiveMainMenuSpotIdx t = ActiveMainMenuSpotIdx (scene 0) \<and>
        MainMenuSpotsInternal t = MainMenuSpotsInternal (scene 0)"
    using T4 c r by blast
  show ?thesis using e g1 m5 w5 a5 g2 w0 a0 g3 c r g4 by blast
qed

text \<open>
  C3 (selection out of sync). If no candidate has the active row index, as whenever there
  is no candidate at all, \<open>MoveMainMenuSpot\<close> returns \<open>nullptr\<close> for every increment. The
  state it leaves differs from the one it found by the \<open>ensureMsgf\<close> report only: the
  registry and the active index are untouched and no spot is stopped or set idle. No
  call of \<open>MoveMainMenuSpot\<close> divides by zero.
\<close>

theorem MoveMainMenuSpot_out_of_sync:
  "(\<not> (\<exists>a. Some a \<in> set (MainMenuSpotsInternal s) \<and> LevelType (cr a) = lt
          \<and> RowIndex (cr a) = ActiveMainMenuSpotIdx s) \<longrightarrow>
      (\<exists>msg. MoveMainMenuSpot cr lt inc s =
               Inr (None, s\<lparr>Effects := Effects s @ [EnsureFailed msg]\<rparr>))) \<and>
   (CurrentLevelTypeSpots cr lt s = [] \<longrightarrow>
      (\<exists>msg. MoveMainMenuSpot cr lt inc s =
               Inr (None, s\<lparr>Effects := Effects s @ [EnsureFailed msg]\<rparr>))) \<and>
   MoveMainMenuSpot cr lt inc s \<noteq> Inl DivideByZero"
proof (intro conjI impI)
  assume "\<not> (\<exists>a. Some a \<in> set (MainMenuSpotsInternal s) \<and> LevelType (cr a) = lt
          \<and> RowIndex (cr a) = ActiveMainMenuSpotIdx s)"
  then have "ActiveMainMenuSpotIdx s \<notin> set (SpotRowIndices cr lt s)"
    by (simp add: active_in_SpotRowIndices_iff)
  from MoveMainMenuSpot_not_found [OF this, of inc]
  show "\<exists>msg. MoveMainMenuSpot cr lt inc s =
               Inr (None, s\<lparr>Effects := Effects s @ [EnsureFailed msg]\<rparr>)"
    by blast
next
  assume "CurrentLevelTypeSpots cr lt s = []"
  then have "level_addrs cr lt s = []" by (simp add: CurrentLevelTypeSpots_eq)
  then have "SpotRowIndices cr lt s = []" by (simp add: SpotRowIndices_eq)
  then have "ActiveMainMenuSpotIdx s \<notin> set (SpotRowIndices cr lt s)" by simp
  from MoveMainMenuSpot_not_found [OF this, of inc]
  show "\<exists>msg. MoveMainMenuSpot cr lt inc s =
               Inr (None, s\<lparr>Effects := Effects s @ [EnsureFailed msg]\<rparr>)"
    by blast
next
  show "MoveMainMenuSpot cr lt inc s \<noteq> Inl DivideByZero"
  proof (cases "ActiveMainMenuSpotIdx s \<in> set (SpotRowIndices cr lt s)")
    case True
    show ?thesis using MoveMainMenuSpot_found [OF True, of inc] by (simp add: Let_def)
  next
    case False
    show ?thesis using MoveMainMenuSpot_not_found [OF False, of inc] by simp
  qed
qed

text \<open>
  C3 on the example scene: active row index 1 after the level switched to type 2, and a
  level type 3 without any spot.
\<close>

theorem MoveMainMenuSpot_out_of_sync_witness:
  "\<not> (\<exists>a. Some a \<in> set (MainMenuSpotsInternal (scene 1)) \<and> LevelType (scene_rows a) = 2
          \<and> RowIndex (scene_rows a) = ActiveMainMenuSpotIdx (scene 1)) \<and>
   CurrentLevelTypeSpots scene_rows 3 (scene 1) = [] \<and>
   (\<exists>msg. MoveMainMenuSpot scene_rows 2 1 (scene 1) =
               Inr (None, (scene 1)\<lparr>Effects := Effects (scene 1) @ [EnsureFailed msg]\<rparr>)) \<and>
   (\<exists>msg. MoveMainMenuSpot scene_rows 3 (- 1) (scene 1) =
               Inr (None, (scene 1)\<lparr>Effects := Effects (scene 1) @ [EnsureFailed msg]\<rparr>))"
proof -
  have h1: "\<not> (\<exists>a. Some a \<in> set (MainMenuSpotsInternal (scene 1)) \<and> LevelType (scene_rows a) = 2
          \<and> RowIndex (scene_rows a) = ActiveMainMenuSpotIdx (scene 1))"
    by (auto simp: scene_def scene_rows_def)
  have h2: "CurrentLevelTypeSpots scene_rows 3 (scene 1) = []"
    by (simp add: CurrentLevelTypeSpots_def GetMainMenuSpotsByLevelType_def Sort_RowIndex_def
          scene_def scene_rows_def)
  from MoveMainMenuSpot_out_of_sync [of "scene 1" scene_rows 2 1]
       MoveMainMenuSpot_out_of_sync [of "scene 1" scene_rows 3 "- 1"] h1 h2
  show ?thesis by blast
qed

text \<open>
  C4 (selection invariant). Assume that no two candidates share a row index. Whenever
  \<open>MoveMainMenuSpot\<close> returns a spot, for any increment, the registry is unchanged, the
  returned spot is a candidate whose row index is the new active row index, and it is
  the only candidate with that row index. When no candidate has the active row index,
  the call returns \<open>nullptr\<close> and changes nothing but for the report.
\<close>

theorem MoveMainMenuSpot_selection_invariant:
  assumes "\<forall>a b. Some a \<in> set (MainMenuSpotsInternal s) \<and> Some b \<in> set (MainMenuSpotsInternal s) \<and>
             LevelType (cr a) = lt \<and> LevelType (cr b) = lt \<and>
             RowIndex (cr a) = RowIndex (cr b) \<longrightarrow> a = b"
  shows "(MoveMainMenuSpot cr lt inc s = Inr (Some p, s') \<longrightarrow>
            MainMenuSpotsInternal s' = MainMenuSpotsInternal s \<and>
            Some p \<in> set (MainMenuSpotsInternal s') \<and> LevelType (cr p) = lt \<and>
            RowIndex (cr p) = ActiveMainMenuSpotIdx s' \<and>
            (\<forall>b. Some b \<in> set (MainMenuSpotsInternal s') \<and> LevelType (cr b) = lt \<and>
                 RowIndex (cr b) = ActiveMainMenuSpotIdx s' \<longrightarrow> b = p)) \<and>
         (\<not> (\<exists>a. Some a \<in> set (MainMenuSpotsInternal s) \<and> LevelType (cr a) = lt \<and>
                 RowIndex (cr a) = ActiveMainMenuSpotIdx s) \<longrightarrow>
            (\<exists>msg. MoveMainMenuSpot cr lt inc s =
                     Inr (None, s\<lparr>Effects := Effects s @ [EnsureFailed msg]\<rparr>)))"
proof (intro conjI impI)
  assume ok: "MoveMainMenuSpot cr lt inc s = Inr (Some p, s')"
  note S = MoveMainMenuSpot_success [OF ok]
  let ?R = "SpotRowIndices cr lt s"
  let ?k = "(IndexOfByKey ?R (ActiveMainMenuSpotIdx s) + inc + int (length ?R)) mod int (length ?R)"
  have R: "?R = map (\<lambda>a. RowIndex (cr a)) (level_addrs cr lt s)"
    by (rule SpotRowIndices_unique_rows) (rule unique_rows_distinct [OF assms])
  have len: "length ?R = length (level_addrs cr lt s)" by (subst R) simp
  have k: "nat ?k < length (level_addrs cr lt s)" using S(5,6) len by linarith
  have p: "p = level_addrs cr lt s ! nat ?k" by (rule S(7))
  then have pin: "p \<in> set (level_addrs cr lt s)" using k by simp
  show reg: "MainMenuSpotsInternal s' = MainMenuSpotsInternal s" by (subst S(8)) simp
  have act: "ActiveMainMenuSpotIdx s' = ?R ! nat ?k" by (subst S(8)) simp
  also have "\<dots> = RowIndex (cr p)" using k p by (subst R) simp
  finally have row: "RowIndex (cr p) = ActiveMainMenuSpotIdx s'" by simp
  show "Some p \<in> set (MainMenuSpotsInternal s')" using pin reg by (simp add: set_level_addrs)
  show lv: "LevelType (cr p) = lt" using pin by (simp add: set_level_addrs)
  show "RowIndex (cr p) = ActiveMainMenuSpotIdx s'" by (rule row)
  show "\<forall>b. Some b \<in> set (MainMenuSpotsInternal s') \<and> LevelType (cr b) = lt \<and>
                 RowIndex (cr b) = ActiveMainMenuSpotIdx s' \<longrightarrow> b = p"
    using assms pin row lv reg by (auto simp: set_level_addrs)
next
  assume "\<not> (\<exists>a. Some a \<in> set (MainMenuSpotsInternal s) \<and> LevelType (cr a) = lt \<and>
                 RowIndex (cr a) = ActiveMainMenuSpotIdx s)"
  then have "ActiveMainMenuSpotIdx s \<notin> set (SpotRowIndices cr lt s)"
    by (simp add: active_in_SpotRowIndices_iff)
  from MoveMainMenuSpot_not_found [OF this, of inc]
  show "\<exists>msg. MoveMainMenuSpot cr lt inc s =
                     Inr (None, s\<lparr>Effects := Effects s @ [EnsureFailed msg]\<rparr>)"
    by blast
qed

text \<open>
  C4 on the example scene: a step from spot 0 to spot 1 in level type 1, and the call
  after the level switched to type 2.
\<close>

theorem MoveMainMenuSpot_selection_invariant_witness:
  "MoveMainMenuSpot scene_rows 1 1 (scene 0) =
     Inr (Some 1, (scene 0)\<lparr>ActiveMainMenuSpotIdx := 1,
        Effects := [StopMasterSequence 0, SetCinematicState 1 IdlePart]\<rparr>) \<and>
   Some 1 \<in> set (MainMenuSpotsInternal ((scene 0)\<lparr>ActiveMainMenuSpotIdx := 1,
        Effects := [StopMasterSequence 0, SetCinematicState 1 IdlePart]\<rparr>)) \<and>
   LevelType (scene_rows 1) = 1 \<and>
   RowIndex (scene_rows 1) =
     ActiveMainMenuSpotIdx ((scene 0)\<lparr>ActiveMainMenuSpotIdx := 1,
        Effects := [StopMasterSequence 0, SetCinematicState 1 IdlePart]\<rparr>) \<and>
   \<not> (\<exists>a. Some a \<in> set (MainMenuSpotsInternal (scene 1)) \<and> LevelType (scene_rows a) = 2 \<and>
           RowIndex (scene_rows a) = ActiveMainMenuSpotIdx (scene 1)) \<and>
   (\<exists>msg. MoveMainMenuSpot scene_rows 2 1 (scene 1) =
            Inr (None, (scene 1)\<lparr>Effects := Effects (scene 1) @ [EnsureFailed msg]\<rparr>))"
proof -
  let ?t = "(scene 0)\<lparr>ActiveMainMenuSpotIdx := 1,
        Effects := [StopMasterSequence 0, SetCinematicState 1 IdlePart]\<rparr>"
  have u1: "\<forall>a b. Some a \<in> set (MainMenuSpotsInternal (scene 0)) \<and> Some b \<in> set (MainMenuSpotsInternal (scene 0)) \<and>
         LevelType (scene_rows a) = 1 \<and> LevelType (scene_rows b) = 1 \<and>
         RowIndex (scene_rows a) = RowIndex (scene_rows b) \<longrightarrow> a = b"
    by (rule scene_unique_rows)
  have u2: "\<forall>a b. Some a \<in> set (MainMenuSpotsInternal (scene 1)) \<and> Some b \<in> set (MainMenuSpotsInternal (scene 1)) \<and>
         LevelType (scene_rows a) = 2 \<and> LevelType (scene_rows b) = 2 \<and>
         RowIndex (scene_rows a) = RowIndex (scene_rows b) \<longrightarrow> a = b"
    by (rule scene_unique_rows)
  have e: "MoveMainMenuSpot scene_rows 1 1 (scene 0) = Inr (Some 1, ?t)" by (rule scene_eval1)
  have n: "\<not> (\<exists>a. Some a \<in> set (MainMenuSpotsInternal (scene 1)) \<and> LevelType (scene_rows a) = 2 \<and>
           RowIndex (scene_rows a) = ActiveMainMenuSpotIdx (scene 1))"
    by (auto simp: scene_def scene_rows_def)
  note T1 = MoveMainMenuSpot_selection_invariant
     [where s = "scene 0" and cr = scene_rows and lt = 1 and inc = 1 and p = 1 and s' = ?t, OF u1]
  note T2 = MoveMainMenuSpot_selection_invariant
     [where s = "scene 1" and cr = scene_rows and lt = 2 and inc = 1 and p = 0 and s' = "scene 1", OF u2]
  from T1 e have g1: "Some 1 \<in> set (MainMenuSpotsInternal ?t)"
    and g2: "LevelType (scene_rows 1) = 1"
    and g3: "RowIndex (scene_rows 1) = ActiveMainMenuSpotIdx ?t"
    by blast+
  from T2 n have g4: "\<exists>msg. MoveMainMenuSpot scene_rows 2 1 (scene 1) =
            Inr (None, (scene 1)\<lparr>Effects := Effects (scene 1) @ [EnsureFailed msg]\<rparr>)"
    by blast
  show ?thesis using e g1 g2 g3 n g4 by blast
qed



text \<open>
  C6 (registration). Adding a spot that is registered already leaves the state as it is,
  and adding a spot twice is the same as adding it once. With a null pointer both
  \<open>AddNewMainMenuSpot\<close> and \<open>RemoveMainMenuSpot\<close> return a state that differs from the one
  they found by the \<open>ensureMsgf\<close> report only. Neither operation has a fatal outcome.
\<close>

theorem AddNewMainMenuSpot_idempotent_null_rejected:
  "(Some a \<in> set (MainMenuSpotsInternal s) \<longrightarrow> AddNewMainMenuSpot (Some a) s = s) \<and>
   AddNewMainMenuSpot (Some a) (AddNewMainMenuSpot (Some a) s) = AddNewMainMenuSpot (Some a) s \<and>
   (\<exists>msg. AddNewMainMenuSpot None s = s\<lparr>Effects := Effects s @ [EnsureFailed msg]\<rparr>) \<and>
   (\<exists>msg. RemoveMainMenuSpot None s = s\<lparr>Effects := Effects s @ [EnsureFailed msg]\<rparr>)"
  by (auto simp: AddNewMainMenuSpot_def RemoveMainMenuSpot_def AddUnique_def ensure_report_def)

text \<open>
  C6 on the example scene, where spot 1 is registered.
\<close>

theorem AddNewMainMenuSpot_idempotent_null_rejected_witness:
  "Some 1 \<in> set (MainMenuSpotsInternal (scene 0)) \<and>
   AddNewMainMenuSpot (Some 1) (scene 0) = scene 0"
  using AddNewMainMenuSpot_idempotent_null_rejected [of 1 "scene 0"]
  by (simp add: scene_def)

text \<open>
  C7 (teardown). \<open>Deinitialize\<close> is commented "Clears all transient data contained in
  this subsystem", and the specification has it reset the registry and the active
  selection. Its body resets the data asset pointer and empties the registry and has no
  assignment to \<open>ActiveMainMenuSpotIdx\<close>. From the example scene with active row index 0
  and from the one with active row index 1 it leaves an empty registry and the active
  row indices 0 and 1: whatever the initial value of the index is, one of the two states
  is not back at it.
\<close>

theorem Deinitialize_active_index_not_reset:
  "MainMenuSpotsInternal (Deinitialize (scene 0)) = [] \<and>
   ActiveMainMenuSpotIdx (Deinitialize (scene 0)) = 0 \<and>
   MainMenuSpotsInternal (Deinitialize (scene 1)) = [] \<and>
   ActiveMainMenuSpotIdx (Deinitialize (scene 1)) = 1"
  by (simp add: Deinitialize_def scene_def)

text \<open>
  C8 (removing the active spot). Let \<open>a\<close> be a candidate that carries the active row
  index, as the spot \<open>GetActiveMainMenuSpotComponent\<close> returns does when it belongs to the
  current level type, and let it be the only such candidate. After
  \<open>RemoveMainMenuSpot\<close> of \<open>a\<close> the registry no longer holds \<open>a\<close>, and \<open>MoveMainMenuSpot\<close>
  with any increment returns \<open>nullptr\<close>, changing nothing but for the report.
\<close>

theorem MoveMainMenuSpot_after_remove_active:
  assumes "Some a \<in> set (MainMenuSpotsInternal s)"
    and "LevelType (cr a) = lt"
    and "RowIndex (cr a) = ActiveMainMenuSpotIdx s"
    and "\<forall>b. Some b \<in> set (MainMenuSpotsInternal s) \<and> LevelType (cr b) = lt \<and>
             RowIndex (cr b) = ActiveMainMenuSpotIdx s \<longrightarrow> b = a"
  shows "Some a \<notin> set (MainMenuSpotsInternal (RemoveMainMenuSpot (Some a) s)) \<and>
         (\<exists>msg. MoveMainMenuSpot cr lt inc (RemoveMainMenuSpot (Some a) s) =
            Inr (None, (RemoveMainMenuSpot (Some a) s)
                   \<lparr>Effects := Effects (RemoveMainMenuSpot (Some a) s) @ [EnsureFailed msg]\<rparr>))"
proof -
  define s' where "s' = RemoveMainMenuSpot (Some a) s"
  have reg: "set (MainMenuSpotsInternal s') = set (MainMenuSpotsInternal s) - {Some a}"
    by (simp add: s'_def RemoveMainMenuSpot_def set_RemoveSwap)
  have act: "ActiveMainMenuSpotIdx s' = ActiveMainMenuSpotIdx s"
    by (simp add: s'_def RemoveMainMenuSpot_def)
  have "\<not> (\<exists>b. Some b \<in> set (MainMenuSpotsInternal s') \<and> LevelType (cr b) = lt \<and>
             RowIndex (cr b) = ActiveMainMenuSpotIdx s')"
    using assms(4) by (auto simp: reg act)
  then have "ActiveMainMenuSpotIdx s' \<notin> set (SpotRowIndices cr lt s')"
    by (simp add: active_in_SpotRowIndices_iff)
  from MoveMainMenuSpot_not_found [OF this, of inc]
  have "\<exists>msg. MoveMainMenuSpot cr lt inc s' =
            Inr (None, s'\<lparr>Effects := Effects s' @ [EnsureFailed msg]\<rparr>)"
    by blast
  moreover have "Some a \<notin> set (MainMenuSpotsInternal s')" by (simp add: reg)
  ultimately show ?thesis by (simp add: s'_def)
qed

text \<open>
  C8 on the example scene: spot 0 is the active spot and the only candidate of level type
  1 with row index 0.
\<close>

theorem MoveMainMenuSpot_after_remove_active_witness:
  "GetActiveMainMenuSpotComponent scene_rows (scene 0) = Some 0 \<and>
   Some 0 \<in> set (MainMenuSpotsInternal (scene 0)) \<and>
   LevelType (scene_rows 0) = 1 \<and>
   RowIndex (scene_rows 0) = ActiveMainMenuSpotIdx (scene 0) \<and>
   Some 0 \<notin> set (MainMenuSpotsInternal (RemoveMainMenuSpot (Some 0) (scene 0))) \<and>
   (\<exists>msg. MoveMainMenuSpot scene_rows 1 1 (RemoveMainMenuSpot (Some 0) (scene 0)) =
            Inr (None, (RemoveMainMenuSpot (Some 0) (scene 0))
                   \<lparr>Effects := Effects (RemoveMainMenuSpot (Some 0) (scene 0)) @ [EnsureFailed msg]\<rparr>))"
proof -
  have h0: "GetActiveMainMenuSpotComponent scene_rows (scene 0) = Some 0"
    by (simp add: GetActiveMainMenuSpotComponent_def scene_def scene_rows_def)
  from GetActiveMainMenuSpotComponent_Some [OF h0]
  have h1: "Some 0 \<in> set (MainMenuSpotsInternal (scene 0))"
    and h3: "RowIndex (scene_rows 0) = ActiveMainMenuSpotIdx (scene 0)"
    by simp_all
  have h2: "LevelType (scene_rows 0) = 1" by (simp add: scene_rows_def)
  have h4: "\<forall>b. Some b \<in> set (MainMenuSpotsInternal (scene 0)) \<and> LevelType (scene_rows b) = 1 \<and>
             RowIndex (scene_rows b) = ActiveMainMenuSpotIdx (scene 0) \<longrightarrow> b = 0"
    by (auto simp: scene_def scene_rows_def)
  from MoveMainMenuSpot_after_remove_active
         [where a = 0 and s = "scene 0" and cr = scene_rows and lt = 1 and inc = 1, OF h1 h2 h3 h4]
       h0 h1 h2 h3
  show ?thesis by blast
qed

text \<open>
  C9 (no fatal outcome). For every registry, null and repeated entries included, every
  object store, level type and active index, \<open>MoveMainMenuSpot\<close> with increment 1 and with
  increment -1 returns normally: no \<open>checkf\<close> fails, every array read is inside its array,
  every spot that is read through is not null, and the divisor is not zero.
\<close>

theorem MoveMainMenuSpot_never_fatal:
  "(\<exists>p s'. MoveMainMenuSpot cr lt 1 s = Inr (p, s')) \<and>
   (\<exists>p s'. MoveMainMenuSpot cr lt (- 1) s = Inr (p, s'))"
proof (cases "ActiveMainMenuSpotIdx s \<in> set (SpotRowIndices cr lt s)")
  case True
  show ?thesis
    using MoveMainMenuSpot_step [OF True, of 1] MoveMainMenuSpot_step [OF True, of "- 1"]
    by simp
next
  case False
  show ?thesis
    using MoveMainMenuSpot_not_found [OF False, of 1] MoveMainMenuSpot_not_found [OF False, of "- 1"]
    by simp
qed

text \<open>
  C10, as stated, speaks of every non-empty initial array and has the result equal the
  one from an empty array only when the array starts empty. On the example scene, an
  initial array holding a null pointer makes the sort read through it, and the initial
  array holding spot 1, a candidate, gives the result of the empty array.
\<close>

theorem GetMainMenuSpotsByLevelType_prefilled_counterexample:
  "GetMainMenuSpotsByLevelType scene_rows [None] 1 (scene 0) = Inl NullDereference \<and>
   GetMainMenuSpotsByLevelType scene_rows [Some 1] 1 (scene 0) =
     GetMainMenuSpotsByLevelType scene_rows [] 1 (scene 0)"
  by (simp add: GetMainMenuSpotsByLevelType_def Sort_RowIndex_def scene_def scene_rows_def AddUnique_def)

text \<open>
  C10, amended. \<open>GetMainMenuSpotsByLevelType\<close> does not clear the array it is given. If
  the array holds no null pointer, the call returns normally and the result holds,
  counted with repetitions, the elements the array had and the candidates that were not
  among them, in ascending order of row index. Started on an empty array the result is
  the candidates alone. Whenever the array had an element that is not a candidate, the
  result differs from the one on an empty array.
\<close>

theorem GetMainMenuSpotsByLevelType_appends:
  "(None \<notin> set OutSpots \<longrightarrow>
      (\<exists>as. GetMainMenuSpotsByLevelType cr OutSpots lt s = Inr (map Some as) \<and>
            mset (map Some as) =
              mset OutSpots +
              mset (filter (\<lambda>p. p \<notin> set OutSpots) (CurrentLevelTypeSpots cr lt s)) \<and>
            sorted (map (\<lambda>a. RowIndex (cr a)) as))) \<and>
   GetMainMenuSpotsByLevelType cr [] lt s = Inr (CurrentLevelTypeSpots cr lt s) \<and>
   ((\<exists>p \<in> set OutSpots.
        p \<notin> {Some a | a. Some a \<in> set (MainMenuSpotsInternal s) \<and> LevelType (cr a) = lt}) \<longrightarrow>
      GetMainMenuSpotsByLevelType cr OutSpots lt s \<noteq> GetMainMenuSpotsByLevelType cr [] lt s)"
proof (intro conjI impI)
  let ?M = "add_spots_of_level cr lt (MainMenuSpotsInternal s) []"
  let ?L = "add_spots_of_level cr lt (MainMenuSpotsInternal s) OutSpots"
  let ?key = "\<lambda>a. RowIndex (cr a)"
  assume nn: "None \<notin> set OutSpots"
  then have nL: "None \<notin> set ?L" by (rule add_spots_of_level_no_null)
  have L: "?L = OutSpots @ filter (\<lambda>p. p \<notin> set OutSpots) ?M"
    by (rule add_spots_of_level_append)
  have res: "GetMainMenuSpotsByLevelType cr OutSpots lt s =
               Inr (map Some (sort_key ?key (addrs_of ?L)))"
    unfolding GetMainMenuSpotsByLevelType_def by (rule Sort_RowIndex_no_null [OF nL])
  have "mset (map Some (sort_key ?key (addrs_of ?L))) = mset (map Some (addrs_of ?L))"
    by simp
  also have "\<dots> = mset ?L" by (simp only: map_Some_addrs_of [OF nL])
  also have "\<dots> = mset OutSpots + filter_mset (\<lambda>p. p \<notin> set OutSpots) (mset ?M)"
    by (subst L) simp
  also have "\<dots> = mset OutSpots +
      mset (filter (\<lambda>p. p \<notin> set OutSpots) (CurrentLevelTypeSpots cr lt s))"
    by (simp add: mset_CurrentLevelTypeSpots)
  finally have ms: "mset (map Some (sort_key ?key (addrs_of ?L))) =
      mset OutSpots + mset (filter (\<lambda>p. p \<notin> set OutSpots) (CurrentLevelTypeSpots cr lt s))" .
  have "sorted (map ?key (sort_key ?key (addrs_of ?L)))" by simp
  with res ms
  show "\<exists>as. GetMainMenuSpotsByLevelType cr OutSpots lt s = Inr (map Some as) \<and>
            mset (map Some as) =
              mset OutSpots +
              mset (filter (\<lambda>p. p \<notin> set OutSpots) (CurrentLevelTypeSpots cr lt s)) \<and>
            sorted (map (\<lambda>a. RowIndex (cr a)) as)"
    by blast
next
  show "GetMainMenuSpotsByLevelType cr [] lt s = Inr (CurrentLevelTypeSpots cr lt s)"
    by (simp add: GetMainMenuSpotsByLevelType_empty CurrentLevelTypeSpots_eq)
next
  let ?L = "add_spots_of_level cr lt (MainMenuSpotsInternal s) OutSpots"
  let ?key = "\<lambda>a. RowIndex (cr a)"
  assume "\<exists>p \<in> set OutSpots.
        p \<notin> {Some a | a. Some a \<in> set (MainMenuSpotsInternal s) \<and> LevelType (cr a) = lt}"
  then obtain p where p: "p \<in> set OutSpots" "p \<notin> set (CurrentLevelTypeSpots cr lt s)"
    unfolding set_CurrentLevelTypeSpots by blast
  have pL: "p \<in> set ?L" using p(1) by (simp add: set_add_spots_of_level)
  have pure: "GetMainMenuSpotsByLevelType cr [] lt s = Inr (CurrentLevelTypeSpots cr lt s)"
    by (simp add: GetMainMenuSpotsByLevelType_empty CurrentLevelTypeSpots_eq)
  show "GetMainMenuSpotsByLevelType cr OutSpots lt s \<noteq> GetMainMenuSpotsByLevelType cr [] lt s"
  proof
    assume eq: "GetMainMenuSpotsByLevelType cr OutSpots lt s = GetMainMenuSpotsByLevelType cr [] lt s"
    show False
    proof (cases "None \<in> set ?L")
      case True
      have "GetMainMenuSpotsByLevelType cr OutSpots lt s =
              (if length ?L < 2 then Inr ?L else Inl NullDereference)"
        unfolding GetMainMenuSpotsByLevelType_def by (rule Sort_RowIndex_null [OF True])
      with eq pure have "?L = CurrentLevelTypeSpots cr lt s" by (simp split: if_splits)
      with pL p(2) show False by simp
    next
      case False
      have "GetMainMenuSpotsByLevelType cr OutSpots lt s =
               Inr (map Some (sort_key ?key (addrs_of ?L)))"
        unfolding GetMainMenuSpotsByLevelType_def by (rule Sort_RowIndex_no_null [OF False])
      with eq pure have e: "map Some (sort_key ?key (addrs_of ?L)) = CurrentLevelTypeSpots cr lt s"
        by simp
      have "set (map Some (sort_key ?key (addrs_of ?L))) = set (map Some (addrs_of ?L))"
        by simp
      also have "\<dots> = set ?L" by (simp only: map_Some_addrs_of [OF False])
      finally have "p \<in> set (map Some (sort_key ?key (addrs_of ?L)))" using pL by simp
      with e p(2) show False by simp
    qed
  qed
qed

text \<open>
  C10, amended, on the example scene, with an initial array holding spot 2, which is of
  another level type.
\<close>

theorem GetMainMenuSpotsByLevelType_appends_witness:
  "None \<notin> set [Some (2::nat)] \<and>
   Some 2 \<in> set [Some (2::nat)] \<and>
   Some 2 \<notin> {Some a | a. Some a \<in> set (MainMenuSpotsInternal (scene 0)) \<and> LevelType (scene_rows a) = 1} \<and>
   (\<exists>as. GetMainMenuSpotsByLevelType scene_rows [Some 2] 1 (scene 0) = Inr (map Some as) \<and>
            mset (map Some as) =
              mset [Some 2] +
              mset (filter (\<lambda>p. p \<notin> set [Some 2]) (CurrentLevelTypeSpots scene_rows 1 (scene 0))) \<and>
            sorted (map (\<lambda>a. RowIndex (scene_rows a)) as)) \<and>
   GetMainMenuSpotsByLevelType scene_rows [Some 2] 1 (scene 0) \<noteq>
     GetMainMenuSpotsByLevelType scene_rows [] 1 (scene 0)"
proof -
  have h1: "None \<notin> set [Some (2::nat)]" by simp
  have h2: "Some 2 \<in> set [Some (2::nat)]" by simp
  have h3: "Some 2 \<notin> {Some a | a. Some a \<in> set (MainMenuSpotsInternal (scene 0)) \<and>
                                  LevelType (scene_rows a) = 1}"
    by (simp add: scene_rows_def)
  from h2 h3 have h4: "\<exists>p \<in> set [Some 2].
        p \<notin> {Some a | a. Some a \<in> set (MainMenuSpotsInternal (scene 0)) \<and> LevelType (scene_rows a) = 1}"
    by blast
  from GetMainMenuSpotsByLevelType_appends [of "[Some 2]" scene_rows 1 "scene 0"] h1 h4
  have "(\<exists>as. GetMainMenuSpotsByLevelType scene_rows [Some 2] 1 (scene 0) = Inr (map Some as) \<and>
            mset (map Some as) =
              mset [Some 2] +
              mset (filter (\<lambda>p. p \<notin> set [Some 2]) (CurrentLevelTypeSpots scene_rows 1 (scene 0))) \<and>
            sorted (map (\<lambda>a. RowIndex (scene_rows a)) as)) \<and>
     GetMainMenuSpotsByLevelType scene_rows [Some 2] 1 (scene 0) \<noteq>
       GetMainMenuSpotsByLevelType scene_rows [] 1 (scene 0)"
    by blast
  with h1 h2 h3 show ?thesis by blast
qed

end
